theory Spec2Isabelle
  imports Main
begin

section \<open>Address book (task\_one.py): data model\<close>

text \<open>
  A Python \<^verbatim>\<open>str\<close> is a sequence of Unicode code points and \<^verbatim>\<open>len\<close> counts code
  points. The model writes a code point as a natural number (Python has those below
  0x110000) and a \<^verbatim>\<open>str\<close> as the list of its code points, so \<^const>\<open>length\<close> is \<^verbatim>\<open>len\<close>.
  \<open>str\<close> gives the Python string of a literal of ASCII characters.

  Every exception the code raises itself is a \<^verbatim>\<open>ValueError\<close>; the model keeps its message.
  \<^verbatim>\<open>IndexError\<close> and \<^verbatim>\<open>KeyError\<close> are what list and dict operations raise.
\<close>

type_synonym codepoint = nat

type_synonym pystr = "codepoint list"

definition str :: "string \<Rightarrow> pystr" where
  "str s = map of_char s"

datatype error = ValueError string | IndexError string | KeyError string

subsection \<open>Character classes of the interpreter\<close>

text \<open>
  The classes are those of the Unicode database 14.0.0, the one of CPython 3.11.

  A decimal digit (\<^verbatim>\<open>str.isdecimal\<close>, the class \<^verbatim>\<open>\d\<close> of \<^verbatim>\<open>re\<close> on a \<^verbatim>\<open>str\<close>, the
  digits \<^verbatim>\<open>int\<close> reads) is a character of general category Nd. These come in runs of
  ten, the digits zero to nine of one script in order; \<open>decimal_zeros\<close> lists the zero
  of every run, and the value of a digit is its distance from its zero.
\<close>

definition decimal_zeros :: "codepoint list" where
  "decimal_zeros =
     [0x30, 0x660, 0x6F0, 0x7C0, 0x966, 0x9E6, 0xA66, 0xAE6, 0xB66, 0xBE6, 0xC66, 0xCE6, 0xD66,
      0xDE6, 0xE50, 0xED0, 0xF20, 0x1040, 0x1090, 0x17E0, 0x1810, 0x1946, 0x19D0, 0x1A80,
      0x1A90, 0x1B50, 0x1BB0, 0x1C40, 0x1C50, 0xA620, 0xA8D0, 0xA900, 0xA9D0, 0xA9F0, 0xAA50,
      0xABF0, 0xFF10, 0x104A0, 0x10D30, 0x11066, 0x110F0, 0x11136, 0x111D0, 0x112F0, 0x11450,
      0x114D0, 0x11650, 0x116C0, 0x11730, 0x118E0, 0x11950, 0x11C50, 0x11D50, 0x11DA0,
      0x16A60, 0x16AC0, 0x16B50, 0x1D7CE, 0x1D7D8, 0x1D7E2, 0x1D7EC, 0x1D7F6, 0x1E140,
      0x1E2F0, 0x1E950, 0x1FBF0]"

definition decimal_value :: "codepoint \<Rightarrow> nat option" where
  "decimal_value c =
     (case filter (\<lambda>z. z \<le> c \<and> c < z + 10) decimal_zeros of
        [] \<Rightarrow> None
      | z # _ \<Rightarrow> Some (c - z))"

definition isdecimal_char :: "codepoint \<Rightarrow> bool" where
  "isdecimal_char c = (decimal_value c \<noteq> None)"

definition digit_val :: "codepoint \<Rightarrow> nat" where
  "digit_val c = (case decimal_value c of None \<Rightarrow> 0 | Some v \<Rightarrow> v)"

definition in_ranges :: "codepoint \<Rightarrow> (codepoint \<times> codepoint) list \<Rightarrow> bool" where
  "in_ranges c rs = list_ex (\<lambda>(lo, hi). lo \<le> c \<and> c \<le> hi) rs"

text \<open>
  A digit (\<^verbatim>\<open>str.isdigit\<close>) is a character with the property Numeric\_Type=Decimal or
  Numeric\_Type=Digit: the decimal digits, and the superscript, subscript, circled and
  similar digits of \<open>other_digits\<close>.
\<close>

definition other_digits :: "(codepoint \<times> codepoint) list" where
  "other_digits =
     [(0xB2, 0xB3), (0xB9, 0xB9), (0x1369, 0x1371), (0x19DA, 0x19DA), (0x2070, 0x2070),
      (0x2074, 0x2079), (0x2080, 0x2089), (0x2460, 0x2468), (0x2474, 0x247C), (0x2488, 0x2490),
      (0x24EA, 0x24EA), (0x24F5, 0x24FD), (0x24FF, 0x24FF), (0x2776, 0x277E), (0x2780, 0x2788),
      (0x278A, 0x2792), (0x10A40, 0x10A43), (0x10E60, 0x10E68), (0x11052, 0x1105A),
      (0x1F100, 0x1F10A)]"

definition isdigit_char :: "codepoint \<Rightarrow> bool" where
  "isdigit_char c = (isdecimal_char c \<or> in_ranges c other_digits)"

text \<open>The white space \<^verbatim>\<open>int\<close> passes over at both ends of its argument.\<close>

definition int_spaces :: "(codepoint \<times> codepoint) list" where
  "int_spaces =
     [(0x9, 0xD), (0x20, 0x20), (0x85, 0x85), (0xA0, 0xA0), (0x1680, 0x1680), (0x2000, 0x200A),
      (0x2028, 0x2029), (0x202F, 0x202F), (0x205F, 0x205F), (0x3000, 0x3000)]"

definition int_space_char :: "codepoint \<Rightarrow> bool" where
  "int_space_char c = in_ranges c int_spaces"

subsection \<open>Phone\<close>

text \<open>
  \<^verbatim>\<open>str.isdigit\<close>: true when the string has at least one character and every character
  is a digit.
\<close>

definition isdigit :: "pystr \<Rightarrow> bool" where
  "isdigit s = (s \<noteq> [] \<and> list_all isdigit_char s)"

text \<open>
  \<^verbatim>\<open>Phone.__validate_phone\<close>: the length check comes first, then the digit check; the
  string itself is returned.
\<close>

definition validate_phone :: "pystr \<Rightarrow> error + pystr" where
  "validate_phone phone =
     (if length phone \<noteq> 10 then Inl (ValueError ''The phone number must contain 10 digits'')
      else if \<not> isdigit phone then Inl (ValueError ''The phone number must contain only numbers'')
      else Inr phone)"

text \<open>A \<^verbatim>\<open>Phone\<close> object holds the validated string in its field \<^verbatim>\<open>value\<close>.\<close>

datatype Phone = Phone (phone_value: pystr)

text \<open>\<^verbatim>\<open>Phone.__init__\<close>: the object exists only when validation returned.\<close>

definition Phone_init :: "pystr \<Rightarrow> error + Phone" where
  "Phone_init phone = (case validate_phone phone of Inl e \<Rightarrow> Inl e | Inr v \<Rightarrow> Inr (Phone v))"

subsection \<open>Dates (the standard library's \<^verbatim>\<open>datetime.date\<close>)\<close>

text \<open>
  \<^verbatim>\<open>datetime.date\<close> is the proleptic Gregorian calendar with years \<^verbatim>\<open>MINYEAR\<close> to
  \<^verbatim>\<open>MAXYEAR\<close>. The definitions follow the module's own helpers (\<^verbatim>\<open>_is_leap\<close>,
  \<^verbatim>\<open>_days_in_month\<close>, \<^verbatim>\<open>_days_before_year\<close>, \<^verbatim>\<open>_days_before_month\<close>, \<^verbatim>\<open>_ymd2ord\<close>,
  \<^verbatim>\<open>_check_date_fields\<close>); Python's \<^verbatim>\<open>//\<close> and \<^verbatim>\<open>%\<close> on a positive divisor are
  \<^term>\<open>(div)\<close> and \<^term>\<open>(mod)\<close> on \<^typ>\<open>int\<close>.
\<close>

record date =
  year :: int
  month :: int
  day :: int

definition MINYEAR :: int where "MINYEAR = 1"

definition MAXYEAR :: int where "MAXYEAR = 9999"

definition is_leap :: "int \<Rightarrow> bool" where
  "is_leap y = (y mod 4 = 0 \<and> (y mod 100 \<noteq> 0 \<or> y mod 400 = 0))"

definition DAYS_IN_MONTH :: "int list" where
  "DAYS_IN_MONTH = [-1, 31, 28, 31, 30, 31, 30, 31, 31, 30, 31, 30, 31]"

definition DAYS_BEFORE_MONTH :: "int list" where
  "DAYS_BEFORE_MONTH = [-1, 0, 31, 59, 90, 120, 151, 181, 212, 243, 273, 304, 334]"

definition days_in_month :: "int \<Rightarrow> int \<Rightarrow> int" where
  "days_in_month y m = (if m = 2 \<and> is_leap y then 29 else DAYS_IN_MONTH ! nat m)"

definition days_before_year :: "int \<Rightarrow> int" where
  "days_before_year y' = (let y = y' - 1 in y * 365 + y div 4 - y div 100 + y div 400)"

definition days_before_month :: "int \<Rightarrow> int \<Rightarrow> int" where
  "days_before_month y m = DAYS_BEFORE_MONTH ! nat m + (if m > 2 \<and> is_leap y then 1 else 0)"

text \<open>
  The constructor \<^verbatim>\<open>date(year, month, day)\<close> checks its fields in this order and raises
  \<^verbatim>\<open>ValueError\<close>; the messages are those of the C implementation without the number.
\<close>

definition date_new :: "int \<Rightarrow> int \<Rightarrow> int \<Rightarrow> error + date" where
  "date_new y m d =
     (if \<not> (MINYEAR \<le> y \<and> y \<le> MAXYEAR) then Inl (ValueError ''year is out of range'')
      else if \<not> (1 \<le> m \<and> m \<le> 12) then Inl (ValueError ''month must be in 1..12'')
      else if \<not> (1 \<le> d \<and> d \<le> days_in_month y m) then
        Inl (ValueError ''day is out of range for month'')
      else Inr \<lparr>year = y, month = m, day = d\<rparr>)"

text \<open>\<^verbatim>\<open>d.replace(year=y)\<close> builds a new date from \<^verbatim>\<open>y\<close> and the month and day of \<^verbatim>\<open>d\<close>.\<close>

definition date_replace_year :: "date \<Rightarrow> int \<Rightarrow> error + date" where
  "date_replace_year d y = date_new y (month d) (day d)"

definition toordinal :: "date \<Rightarrow> int" where
  "toordinal d = days_before_year (year d) + days_before_month (year d) (month d) + day d"

text \<open>\<^verbatim>\<open>a < b\<close> on dates compares (year, month, day) lexicographically.\<close>

definition date_lt :: "date \<Rightarrow> date \<Rightarrow> bool" where
  "date_lt a b =
     (year a < year b \<or> (year a = year b \<and>
       (month a < month b \<or> (month a = month b \<and> day a < day b))))"

text \<open>\<^verbatim>\<open>(a - b).days\<close>: the difference of the ordinals.\<close>

definition date_sub_days :: "date \<Rightarrow> date \<Rightarrow> int" where
  "date_sub_days a b = toordinal a - toordinal b"

text \<open>
  A date object always holds fields its constructor accepted; \<open>valid_date\<close> says so of a
  value of the record type.
\<close>

definition valid_date :: "date \<Rightarrow> bool" where
  "valid_date d = (date_new (year d) (month d) (day d) = Inr d)"

subsection \<open>Birthday\<close>

text \<open>
  \<^verbatim>\<open>datetime.strptime(birthday, "%d.%m.%Y")\<close> compiles the format into a regular expression,
  matches it at the start of the string, refuses a match that leaves characters over,
  reads the three groups with \<^verbatim>\<open>int\<close> and builds the date. The regular expression for
  this format is, in the standard library's \<^verbatim>\<open>_strptime\<close>,
  \<^verbatim>\<open>(?P<d>3[0-1]|[1-2]\d|0[1-9]|[1-9]| [1-9])\.(?P<m>1[0-2]|0[1-9]|[1-9])\.(?P<Y>\d\d\d\d)\<close>.

  A one-character item of the expression is a literal character, a range of characters
  or the class \<^verbatim>\<open>\d\<close>, which on a \<^verbatim>\<open>str\<close> is every decimal digit of Unicode. An
  alternative is a list of items, a group a list of alternatives in the order of the
  expression.
\<close>

datatype charclass = Lit char | Range char char | Digit

fun in_class :: "codepoint \<Rightarrow> charclass \<Rightarrow> bool" where
  "in_class c (Lit x) = (c = of_char x)"
| "in_class c (Range lo hi) = (of_char lo \<le> c \<and> c \<le> of_char hi)"
| "in_class c Digit = isdecimal_char c"

text \<open>One alternative at the start of a string: the matched text and the rest.\<close>

fun match_items :: "charclass list \<Rightarrow> pystr \<Rightarrow> (pystr \<times> pystr) option" where
  "match_items [] s = Some ([], s)"
| "match_items (c # cs) [] = None"
| "match_items (c # cs) (x # xs) =
     (if in_class x c then
        (case match_items cs xs of None \<Rightarrow> None | Some (t, r) \<Rightarrow> Some (x # t, r))
      else None)"

text \<open>
  A group at the start of a string: the matches of its alternatives in the order a
  backtracking matcher tries them.
\<close>

definition match_group :: "charclass list list \<Rightarrow> pystr \<Rightarrow> (pystr \<times> pystr) list" where
  "match_group alts s = List.map_filter (\<lambda>alt. match_items alt s) alts"

definition regex_d :: "charclass list list" where
  "regex_d =
     [[Lit CHR ''3'', Range CHR ''0'' CHR ''1''], [Range CHR ''1'' CHR ''2'', Digit],
      [Lit CHR ''0'', Range CHR ''1'' CHR ''9''], [Range CHR ''1'' CHR ''9''],
      [Lit CHR '' '', Range CHR ''1'' CHR ''9'']]"

definition regex_m :: "charclass list list" where
  "regex_m =
     [[Lit CHR ''1'', Range CHR ''0'' CHR ''2''], [Lit CHR ''0'', Range CHR ''1'' CHR ''9''],
      [Range CHR ''1'' CHR ''9'']]"

definition regex_Y :: "charclass list list" where
  "regex_Y = [[Digit, Digit, Digit, Digit]]"

definition regex_dot :: "charclass list list" where
  "regex_dot = [[Lit CHR ''.'']]"

text \<open>
  The whole expression: every way to match the five parts one after the other, in the
  order of the backtracking search, with the texts of the three groups and the rest of
  the string. \<^verbatim>\<open>re.match\<close> returns the first.
\<close>

definition match_format :: "pystr \<Rightarrow> (pystr \<times> pystr \<times> pystr \<times> pystr) list" where
  "match_format s =
     [(d, m, Y, r5).
        (d, r1) \<leftarrow> match_group regex_d s, (dot1, r2) \<leftarrow> match_group regex_dot r1,
        (m, r3) \<leftarrow> match_group regex_m r2, (dot2, r4) \<leftarrow> match_group regex_dot r3,
        (Y, r5) \<leftarrow> match_group regex_Y r4]"

text \<open>
  \<^verbatim>\<open>int(s)\<close> for a text of decimal digits with white space around it, which is all a
  group of the expression can hold; signs and underscores are not modelled. The digits
  may be of any script.
\<close>

definition strip :: "pystr \<Rightarrow> pystr" where
  "strip s = rev (dropWhile int_space_char (rev (dropWhile int_space_char s)))"

definition py_int :: "pystr \<Rightarrow> error + int" where
  "py_int s =
     (let t = strip s in
      if t \<noteq> [] \<and> list_all isdecimal_char t
      then Inr (int (foldl (\<lambda>n c. 10 * n + digit_val c) 0 t))
      else Inl (ValueError ''invalid literal for int() with base 10''))"

text \<open>\<^verbatim>\<open>datetime.strptime(data_string, "%d.%m.%Y").date()\<close>\<close>

definition strptime :: "pystr \<Rightarrow> error + date" where
  "strptime data_string =
     (case match_format data_string of
        [] \<Rightarrow> Inl (ValueError ''time data does not match format'')
      | (d, m, Y, rest) # _ \<Rightarrow>
          if rest \<noteq> [] then Inl (ValueError ''unconverted data remains'')
          else
            (case py_int d of Inl e \<Rightarrow> Inl e | Inr d' \<Rightarrow>
            (case py_int m of Inl e \<Rightarrow> Inl e | Inr m' \<Rightarrow>
            (case py_int Y of Inl e \<Rightarrow> Inl e | Inr y' \<Rightarrow> date_new y' m' d'))))"

text \<open>
  \<^verbatim>\<open>Birthday.__validate_birthday\<close>: a \<^verbatim>\<open>ValueError\<close> of the parse is caught and raised
  again with the message that names the format.
\<close>

definition validate_birthday :: "pystr \<Rightarrow> error + date" where
  "validate_birthday birthday_str =
     (case strptime birthday_str of
        Inl (ValueError e) \<Rightarrow> Inl (ValueError ''Invalid date format. Use DD.MM.YYYY'')
      | Inl e \<Rightarrow> Inl e
      | Inr d \<Rightarrow> Inr d)"

datatype Birthday = Birthday (birthday_value: date)

definition Birthday_init :: "pystr \<Rightarrow> error + Birthday" where
  "Birthday_init birthday_str =
     (case validate_birthday birthday_str of Inl e \<Rightarrow> Inl e | Inr d \<Rightarrow> Inr (Birthday d))"

subsection \<open>Record\<close>

record Record =
  name :: pystr
  phones :: "Phone list"
  birthday :: "Birthday option"

text \<open>\<^verbatim>\<open>Record.__init__\<close>\<close>

definition Record_init :: "pystr \<Rightarrow> Record" where
  "Record_init nm = \<lparr>name = nm, phones = [], birthday = None\<rparr>"

text \<open>
  A method that mutates its record is a function from the record before the call to the
  outcome of the call (an exception or the returned value) and the record after it; a
  step that raises leaves the record as the steps before it made it.

  \<^verbatim>\<open>Phone\<close> defines no \<^verbatim>\<open>__eq__\<close>, so \<^verbatim>\<open>list.remove\<close> and \<^verbatim>\<open>list.index\<close> compare by
  identity. They are only ever given the object \<^verbatim>\<open>find_phone\<close> returned, the first entry
  whose value is the searched string; an entry identical to it has that value too, so the
  first identical entry and the first entry of equal value are the same position, and
  the model compares \<^typ>\<open>Phone\<close> values.
\<close>

text \<open>\<^verbatim>\<open>Record.find_phone\<close>: the loop over \<^verbatim>\<open>self.phones\<close>.\<close>

fun find_phone_loop :: "Phone list \<Rightarrow> pystr \<Rightarrow> error + Phone" where
  "find_phone_loop [] phone = Inl (ValueError ''Phone number not found.'')"
| "find_phone_loop (p # ps) phone =
     (if phone_value p = phone then Inr p else find_phone_loop ps phone)"

definition find_phone :: "Record \<Rightarrow> pystr \<Rightarrow> error + Phone" where
  "find_phone r phone = find_phone_loop (phones r) phone"

text \<open>\<^verbatim>\<open>list.remove(x)\<close>: deletes the first entry equal to \<^verbatim>\<open>x\<close>, \<^verbatim>\<open>ValueError\<close> if none.\<close>

fun list_remove :: "'a list \<Rightarrow> 'a \<Rightarrow> error + 'a list" where
  "list_remove [] x = Inl (ValueError ''list.remove(x): x not in list'')"
| "list_remove (y # ys) x =
     (if y = x then Inr ys
      else (case list_remove ys x of Inl e \<Rightarrow> Inl e | Inr zs \<Rightarrow> Inr (y # zs)))"

text \<open>\<^verbatim>\<open>list.index(x)\<close>: the position of the first entry equal to \<^verbatim>\<open>x\<close>, \<^verbatim>\<open>ValueError\<close> if none.\<close>

fun list_index :: "'a list \<Rightarrow> 'a \<Rightarrow> error + nat" where
  "list_index [] x = Inl (ValueError ''x is not in list'')"
| "list_index (y # ys) x =
     (if y = x then Inr 0
      else (case list_index ys x of Inl e \<Rightarrow> Inl e | Inr i \<Rightarrow> Inr (Suc i)))"

text \<open>\<^verbatim>\<open>xs[i] = v\<close> for an index that is not negative: \<^verbatim>\<open>IndexError\<close> out of range.\<close>

definition list_setitem :: "'a list \<Rightarrow> nat \<Rightarrow> 'a \<Rightarrow> error + 'a list" where
  "list_setitem xs i v =
     (if i < length xs then Inr (xs[i := v])
      else Inl (IndexError ''list assignment index out of range''))"

definition add_phone :: "pystr \<Rightarrow> Record \<Rightarrow> (error + unit) \<times> Record" where
  "add_phone phone r =
     (case Phone_init phone of
        Inl e \<Rightarrow> (Inl e, r)
      | Inr phone_obj \<Rightarrow> (Inr (), r\<lparr>phones := phones r @ [phone_obj]\<rparr>))"

definition remove_phone :: "pystr \<Rightarrow> Record \<Rightarrow> (error + unit) \<times> Record" where
  "remove_phone phone r =
     (case find_phone r phone of
        Inl e \<Rightarrow> (Inl e, r)
      | Inr phone_obj \<Rightarrow>
          (case list_remove (phones r) phone_obj of
             Inl e \<Rightarrow> (Inl e, r)
           | Inr ps \<Rightarrow> (Inr (), r\<lparr>phones := ps\<rparr>)))"

definition edit_phone :: "pystr \<Rightarrow> pystr \<Rightarrow> Record \<Rightarrow> (error + unit) \<times> Record" where
  "edit_phone old_phone new_phone r =
     (case find_phone r old_phone of
        Inl e \<Rightarrow> (Inl e, r)
      | Inr old_phone_obj \<Rightarrow>
          (case Phone_init new_phone of
             Inl e \<Rightarrow> (Inl e, r)
           | Inr new_phone_obj \<Rightarrow>
               (case list_index (phones r) old_phone_obj of
                  Inl e \<Rightarrow> (Inl e, r)
                | Inr index \<Rightarrow>
                    (case list_setitem (phones r) index new_phone_obj of
                       Inl e \<Rightarrow> (Inl e, r)
                     | Inr ps \<Rightarrow> (Inr (), r\<lparr>phones := ps\<rparr>)))))"

definition add_birthday :: "pystr \<Rightarrow> Record \<Rightarrow> (error + unit) \<times> Record" where
  "add_birthday birthday_str r =
     (case Birthday_init birthday_str of
        Inl e \<Rightarrow> (Inl e, r)
      | Inr b \<Rightarrow> (Inr (), r\<lparr>birthday := Some b\<rparr>))"

text \<open>
  \<^verbatim>\<open>Record.days_to_birthday\<close>. The date \<^verbatim>\<open>datetime.now().date()\<close> is the argument
  \<open>today\<close>. A \<^verbatim>\<open>Birthday\<close> object is always true in \<^verbatim>\<open>if not self.birthday\<close>.
\<close>

definition days_to_birthday :: "date \<Rightarrow> Record \<Rightarrow> error + int option" where
  "days_to_birthday today r =
     (case birthday r of
        None \<Rightarrow> Inr None
      | Some b \<Rightarrow>
          (case date_replace_year (birthday_value b) (year today) of
             Inl e \<Rightarrow> Inl e
           | Inr next_birthday \<Rightarrow>
               if date_lt next_birthday today then
                 (case date_replace_year next_birthday (year today + 1) of
                    Inl e \<Rightarrow> Inl e
                  | Inr next_birthday' \<Rightarrow> Inr (Some (date_sub_days next_birthday' today)))
               else Inr (Some (date_sub_days next_birthday today))))"

subsection \<open>AddressBook\<close>

text \<open>
  \<^verbatim>\<open>AddressBook\<close> is a \<^verbatim>\<open>UserDict\<close>: its \<^verbatim>\<open>data\<close> is a dict, which keeps its keys in
  insertion order. The model is the list of (key, value) entries in that order; a dict
  has each key once (\<open>dict_inv\<close>).
\<close>

type_synonym AddressBook = "(pystr \<times> Record) list"

definition dict_inv :: "('k \<times> 'v) list \<Rightarrow> bool" where
  "dict_inv d = distinct (map fst d)"

text \<open>\<^verbatim>\<open>d[k] = v\<close>: an existing key keeps its place and gets the value, a new key goes last.\<close>

fun dict_setitem :: "('k \<times> 'v) list \<Rightarrow> 'k \<Rightarrow> 'v \<Rightarrow> ('k \<times> 'v) list" where
  "dict_setitem [] k v = [(k, v)]"
| "dict_setitem ((k', v') # d) k v =
     (if k' = k then (k, v) # d else (k', v') # dict_setitem d k v)"

text \<open>\<^verbatim>\<open>d.get(k)\<close>\<close>

fun dict_get :: "('k \<times> 'v) list \<Rightarrow> 'k \<Rightarrow> 'v option" where
  "dict_get [] k = None"
| "dict_get ((k', v') # d) k = (if k' = k then Some v' else dict_get d k)"

text \<open>\<^verbatim>\<open>k in d\<close>\<close>

definition dict_contains :: "('k \<times> 'v) list \<Rightarrow> 'k \<Rightarrow> bool" where
  "dict_contains d k = (k \<in> set (map fst d))"

text \<open>\<^verbatim>\<open>del d[k]\<close>: \<^verbatim>\<open>KeyError\<close> when the key is absent.\<close>

fun dict_delitem :: "('k \<times> 'v) list \<Rightarrow> 'k \<Rightarrow> error + ('k \<times> 'v) list" where
  "dict_delitem [] k = Inl (KeyError ''key'')"
| "dict_delitem ((k', v') # d) k =
     (if k' = k then Inr d
      else (case dict_delitem d k of Inl e \<Rightarrow> Inl e | Inr d' \<Rightarrow> Inr ((k', v') # d')))"

text \<open>\<^verbatim>\<open>d.values()\<close>\<close>

definition dict_values :: "('k \<times> 'v) list \<Rightarrow> 'v list" where
  "dict_values d = map snd d"

definition add_record :: "Record \<Rightarrow> AddressBook \<Rightarrow> AddressBook" where
  "add_record record book = dict_setitem book (name record) record"

definition find :: "AddressBook \<Rightarrow> pystr \<Rightarrow> Record option" where
  "find book nm = dict_get book nm"

definition delete :: "pystr \<Rightarrow> AddressBook \<Rightarrow> (error + unit) \<times> AddressBook" where
  "delete nm book =
     (if dict_contains book nm then
        (case dict_delitem book nm of
           Inl e \<Rightarrow> (Inl e, book)
         | Inr d \<Rightarrow> (Inr (), d))
      else (Inl (ValueError ''Record not found.''), book))"

text \<open>
  \<^verbatim>\<open>AddressBook.get_upcoming_birthdays\<close>: the loop over \<^verbatim>\<open>self.data.values()\<close> with the
  list \<^verbatim>\<open>upcoming_birthdays\<close> built so far. Every call of \<^verbatim>\<open>days_to_birthday\<close> reads the
  clock again; the model gives them all the same date \<open>today\<close>.
\<close>

fun upcoming_loop :: "date \<Rightarrow> int \<Rightarrow> Record list \<Rightarrow> Record list \<Rightarrow> error + Record list" where
  "upcoming_loop today days [] upcoming_birthdays = Inr upcoming_birthdays"
| "upcoming_loop today days (record # rest) upcoming_birthdays =
     (if birthday record \<noteq> None then
        (case days_to_birthday today record of
           Inl e \<Rightarrow> Inl e
         | Inr dtb \<Rightarrow>
             if dtb \<noteq> None \<and> the dtb \<le> days
             then upcoming_loop today days rest (upcoming_birthdays @ [record])
             else upcoming_loop today days rest upcoming_birthdays)
      else upcoming_loop today days rest upcoming_birthdays)"

definition get_upcoming_birthdays :: "date \<Rightarrow> int \<Rightarrow> AddressBook \<Rightarrow> error + Record list" where
  "get_upcoming_birthdays today days book = upcoming_loop today days (dict_values book) []"

subsection \<open>Predicates the properties are stated with\<close>

text \<open>A character from \<open>lo\<close> to \<open>hi\<close>, two ASCII characters.\<close>

definition between :: "char \<Rightarrow> char \<Rightarrow> codepoint \<Rightarrow> bool" where
  "between lo hi c = (of_char lo \<le> c \<and> c \<le> of_char hi)"

text \<open>
  A phone number as the specification words it: a string of exactly ten decimal digits,
  0 to 9.
\<close>

definition ten_decimal_digits :: "pystr \<Rightarrow> bool" where
  "ten_decimal_digits s = (length s = 10 \<and> list_all (between CHR ''0'' CHR ''9'') s)"

definition phones_decimal :: "Record \<Rightarrow> bool" where
  "phones_decimal r = list_all (\<lambda>p. ten_decimal_digits (phone_value p)) (phones r)"

text \<open>
  What \<^verbatim>\<open>Phone.__validate_phone\<close> lets through: ten characters, each a digit of
  \<^verbatim>\<open>str.isdigit\<close>.
\<close>

definition passes_validation :: "pystr \<Rightarrow> bool" where
  "passes_validation s = (length s = 10 \<and> list_all isdigit_char s)"

definition phones_validated :: "Record \<Rightarrow> bool" where
  "phones_validated r = list_all (\<lambda>p. passes_validation (phone_value p)) (phones r)"

text \<open>
  The occurrence of a birthday's month and day in a year, and the one \<^verbatim>\<open>days_to_birthday\<close>
  is meant to count to: this year's if it is not before today, else next year's.
\<close>

definition occurrence :: "date \<Rightarrow> int \<Rightarrow> date" where
  "occurrence b y = \<lparr>year = y, month = month b, day = day b\<rparr>"

definition next_occurrence :: "date \<Rightarrow> date \<Rightarrow> date" where
  "next_occurrence b today =
     (if date_lt (occurrence b (year today)) today then occurrence b (year today + 1)
      else occurrence b (year today))"

text \<open>
  The records \<^verbatim>\<open>get_upcoming_birthdays\<close> is meant to return: a birthday is set and
  \<^verbatim>\<open>days_to_birthday\<close> returns a number that is at most \<open>days\<close>.
\<close>

definition upcoming :: "date \<Rightarrow> int \<Rightarrow> Record \<Rightarrow> bool" where
  "upcoming today days r =
     (birthday r \<noteq> None \<and>
      (case days_to_birthday today r of Inr (Some n) \<Rightarrow> n \<le> days | _ \<Rightarrow> False))"

text \<open>
  The texts the three groups of the date format admit. A day: 1 to 9, or 0 or a space
  and then 1 to 9, or 1 or 2 and then a decimal digit of any script, or 3 and then 0 or
  1. A month: 1 to 9, or 0 and then 1 to 9, or 1 and then 0 to 2. A year: four decimal
  digits of any script.
\<close>

definition day_text :: "pystr \<Rightarrow> bool" where
  "day_text t =
     (case t of
        [a] \<Rightarrow> between CHR ''1'' CHR ''9'' a
      | [a, b] \<Rightarrow>
          ((a = of_char CHR ''0'' \<or> a = of_char CHR '' '') \<and> between CHR ''1'' CHR ''9'' b) \<or>
          (between CHR ''1'' CHR ''2'' a \<and> isdecimal_char b) \<or>
          (a = of_char CHR ''3'' \<and> between CHR ''0'' CHR ''1'' b)
      | _ \<Rightarrow> False)"

definition month_text :: "pystr \<Rightarrow> bool" where
  "month_text t =
     (case t of
        [a] \<Rightarrow> between CHR ''1'' CHR ''9'' a
      | [a, b] \<Rightarrow>
          (a = of_char CHR ''0'' \<and> between CHR ''1'' CHR ''9'' b) \<or>
          (a = of_char CHR ''1'' \<and> between CHR ''0'' CHR ''2'' b)
      | _ \<Rightarrow> False)"

definition year_text :: "pystr \<Rightarrow> bool" where
  "year_text t = (length t = 4 \<and> list_all isdecimal_char t)"

text \<open>
  The number a text of decimal digits writes in base ten; other characters are passed
  over.
\<close>

definition text_number :: "pystr \<Rightarrow> int" where
  "text_number t = int (foldl (\<lambda>n c. 10 * n + digit_val c) 0 (filter isdecimal_char t))"

text \<open>
  The format as the specification words it: DD.MM.YYYY, a day of two digits, a month of
  two digits, a year of four digits, the digits 0 to 9, separated by dots.
\<close>

definition strict_format :: "pystr \<Rightarrow> bool" where
  "strict_format s =
     (length s = 10 \<and> s ! 2 = of_char CHR ''.'' \<and> s ! 5 = of_char CHR ''.'' \<and>
      list_all (between CHR ''0'' CHR ''9'') (take 2 s @ take 2 (drop 3 s) @ drop 6 s))"

section \<open>Properties\<close>

subsection \<open>Character classes\<close>

lemma isdecimal_iff:
  "isdecimal_char c \<longleftrightarrow> (\<exists>z \<in> set decimal_zeros. z \<le> c \<and> c < z + 10)"
proof -
  have "isdecimal_char c \<longleftrightarrow> filter (\<lambda>z. z \<le> c \<and> c < z + 10) decimal_zeros \<noteq> []"
    by (simp add: isdecimal_char_def decimal_value_def split: list.splits)
  then show ?thesis
    by (simp add: filter_empty_conv)
qed

lemma ascii_decimal_value: "48 \<le> c \<Longrightarrow> c \<le> 57 \<Longrightarrow> decimal_value c = Some (c - 48)"
  by (simp add: decimal_value_def decimal_zeros_def)

text \<open>Among the ASCII characters the decimal digits and the digits are 0 to 9.\<close>

lemma isdecimal_ascii: "c < 128 \<Longrightarrow> isdecimal_char c \<longleftrightarrow> 48 \<le> c \<and> c \<le> 57"
  by (auto simp: isdecimal_iff decimal_zeros_def)

lemma isdigit_ascii: "c < 128 \<Longrightarrow> isdigit_char c \<longleftrightarrow> 48 \<le> c \<and> c \<le> 57"
  by (simp add: isdigit_char_def isdecimal_ascii in_ranges_def other_digits_def)

lemma between_decimal: "between CHR ''0'' CHR ''9'' c \<Longrightarrow> isdecimal_char c"
  by (simp add: between_def isdecimal_ascii)

lemma decimal_not_space_aux:
  "\<forall>z \<in> set decimal_zeros. \<forall>c. z \<le> c \<and> c < z + 10 \<longrightarrow> \<not> int_space_char c"
  by (simp add: decimal_zeros_def int_space_char_def in_ranges_def int_spaces_def)

lemma decimal_not_space: "isdecimal_char c \<Longrightarrow> \<not> int_space_char c"
  using decimal_not_space_aux by (auto simp: isdecimal_iff)

lemma decimal_not_dot: "isdecimal_char c \<Longrightarrow> c \<noteq> 46"
  using isdecimal_ascii [of 46] by auto

lemma space_is_space: "int_space_char 32" "\<not> isdecimal_char 32"
  by (simp_all add: int_space_char_def in_ranges_def int_spaces_def isdecimal_ascii)

lemma str_dot: "str ''.'' = [46]"
  by (simp add: str_def)

subsection \<open>Phone validation\<close>

lemma validate_phone_Inr: "validate_phone s = Inr v \<longleftrightarrow> v = s \<and> passes_validation s"
  by (auto simp: validate_phone_def isdigit_def passes_validation_def)

lemma Phone_init_Inr: "Phone_init s = Inr p \<longleftrightarrow> p = Phone s \<and> passes_validation s"
  by (auto simp: Phone_init_def validate_phone_def isdigit_def passes_validation_def)

lemma Phone_init_Inl: "Phone_init s = Inl e \<longleftrightarrow> validate_phone s = Inl e"
  by (cases "validate_phone s") (simp_all add: Phone_init_def)

lemma validate_phone_cases:
  "passes_validation s \<or> (\<exists>e. validate_phone s = Inl e)"
  by (cases "validate_phone s") (auto simp: validate_phone_Inr)

text \<open>
  What the code does. Validation raises exactly when the string does not have length 10
  or holds a character that \<^verbatim>\<open>str.isdigit\<close> does not accept: the first message for a
  wrong length, the second for a string of length 10 with such a character. No
  \<^verbatim>\<open>Phone\<close> object is made then: construction raises the same error. Every other
  string is returned unchanged and becomes the value of the object.
\<close>

lemma validate_phone_raises:
  "validate_phone s = Inl (ValueError ''The phone number must contain 10 digits'') \<longleftrightarrow>
     length s \<noteq> 10"
  "validate_phone s = Inl (ValueError ''The phone number must contain only numbers'') \<longleftrightarrow>
     length s = 10 \<and> (\<exists>c \<in> set s. \<not> isdigit_char c)"
  "isl (validate_phone s) \<longleftrightarrow> length s \<noteq> 10 \<or> (\<exists>c \<in> set s. \<not> isdigit_char c)"
  "isl (Phone_init s) \<longleftrightarrow> length s \<noteq> 10 \<or> (\<exists>c \<in> set s. \<not> isdigit_char c)"
  by (auto simp: validate_phone_def Phone_init_def isdigit_def list_all_iff)

lemma validate_phone_returns:
  "length s = 10 \<Longrightarrow> \<forall>c \<in> set s. isdigit_char c \<Longrightarrow>
   validate_phone s = Inr s \<and> Phone_init s = Inr (Phone s)"
  by (auto simp: validate_phone_def Phone_init_def isdigit_def list_all_iff)

text \<open>
  Every string of ten decimal digits 0 to 9 is accepted and stored unchanged, and among
  the strings of ASCII characters these are the only ones accepted.
\<close>

lemma ten_decimal_digits_passes: "ten_decimal_digits s \<Longrightarrow> passes_validation s"
  by (auto simp: ten_decimal_digits_def passes_validation_def list_all_iff between_def
      isdigit_ascii)

lemma ten_decimal_digits_accepted:
  "ten_decimal_digits s \<Longrightarrow> validate_phone s = Inr s \<and> Phone_init s = Inr (Phone s)"
  using ten_decimal_digits_passes [of s] by (simp add: validate_phone_Inr Phone_init_Inr)

lemma validate_phone_ascii:
  assumes "\<forall>c \<in> set s. c < 128"
  shows "validate_phone s = Inr s \<longleftrightarrow> ten_decimal_digits s"
    and "Phone_init s = Inr (Phone s) \<longleftrightarrow> ten_decimal_digits s"
    and "isl (Phone_init s) \<longleftrightarrow> \<not> ten_decimal_digits s"
proof -
  from assms have eq: "passes_validation s \<longleftrightarrow> ten_decimal_digits s"
    by (auto simp: ten_decimal_digits_def passes_validation_def list_all_iff between_def
        isdigit_ascii)
  show "validate_phone s = Inr s \<longleftrightarrow> ten_decimal_digits s"
    by (simp add: validate_phone_Inr eq)
  show "Phone_init s = Inr (Phone s) \<longleftrightarrow> ten_decimal_digits s"
    by (simp add: Phone_init_Inr eq)
  show "isl (Phone_init s) \<longleftrightarrow> \<not> ten_decimal_digits s"
    using validate_phone_cases [of s] ten_decimal_digits_accepted [of s]
    by (auto simp: Phone_init_def eq)
qed

lemma validate_phone_examples:
  "validate_phone (str ''0501234567'') = Inr (str ''0501234567'')"
  "Phone_init (str ''0501234567'') = Inr (Phone (str ''0501234567''))"
  "validate_phone (str ''12345'') = Inl (ValueError ''The phone number must contain 10 digits'')"
  "Phone_init (str ''12345'') = Inl (ValueError ''The phone number must contain 10 digits'')"
  "validate_phone (str ''050-123-45'') =
     Inl (ValueError ''The phone number must contain only numbers'')"
  "Phone_init (str ''050-123-45'') =
     Inl (ValueError ''The phone number must contain only numbers'')"
  by (simp_all add: validate_phone_def Phone_init_def isdigit_def isdigit_ascii str_def)

text \<open>
  C1. The claim: constructing a phone fails exactly when the string does not have length
  10 or holds a character that is not a digit, and a string of ten digits is stored
  unchanged. The code does not fail for every string with a character that is not one of
  the ten decimal digits: its test is \<^verbatim>\<open>str.isdigit\<close>, which also accepts superscript,
  subscript and circled digits and the decimal digits of every script. Here the string
  is 123456789 followed by a superscript two (code point 0xB2): it has length 10, it is
  not a string of ten decimal digits, and validation returns it and construction stores
  it.
\<close>

theorem validate_phone_superscript_failure:
  "length (str ''123456789'' @ [0xB2]) = 10 \<and>
   \<not> ten_decimal_digits (str ''123456789'' @ [0xB2]) \<and>
   validate_phone (str ''123456789'' @ [0xB2]) = Inr (str ''123456789'' @ [0xB2]) \<and>
   Phone_init (str ''123456789'' @ [0xB2]) = Inr (Phone (str ''123456789'' @ [0xB2]))"
  by (simp add: validate_phone_def Phone_init_def isdigit_def isdigit_char_def isdecimal_ascii
      in_ranges_def other_digits_def ten_decimal_digits_def between_def str_def)

subsection \<open>The calendar\<close>

lemma month_cases:
  "1 \<le> m \<Longrightarrow> m \<le> 12 \<Longrightarrow>
   m = 1 \<or> m = 2 \<or> m = 3 \<or> m = 4 \<or> m = 5 \<or> m = 6 \<or> m = 7 \<or> m = 8 \<or> m = 9 \<or> m = 10 \<or>
   m = 11 \<or> m = (12::int)"
  by arith

lemma days_in_month_bounds:
  assumes "1 \<le> m" "m \<le> 12"
  shows "28 \<le> days_in_month y m" "days_in_month y m \<le> 31"
  using month_cases [OF assms]
  by (auto simp: days_in_month_def DAYS_IN_MONTH_def)

lemma days_before_month_step:
  assumes "1 \<le> m" "m < 12"
  shows "days_before_month y (m + 1) = days_before_month y m + days_in_month y m"
proof -
  from assms have "1 \<le> m" "m \<le> 12" by simp_all
  from month_cases [OF this] assms(2) show ?thesis
    by (auto simp: days_before_month_def days_in_month_def DAYS_BEFORE_MONTH_def DAYS_IN_MONTH_def)
qed

lemma days_before_month_mono:
  assumes "1 \<le> m" "m \<le> m'" "m' \<le> 12"
  shows "days_before_month y m \<le> days_before_month y m'"
proof -
  have "days_before_month y m \<le> days_before_month y (m + int k)" if "m + int k \<le> 12" for k
    using that
  proof (induction k)
    case 0
    then show ?case by simp
  next
    case (Suc k)
    then have "days_before_month y m \<le> days_before_month y (m + int k)" by simp
    moreover have "days_before_month y ((m + int k) + 1) =
        days_before_month y (m + int k) + days_in_month y (m + int k)"
      using Suc.prems assms(1) by (intro days_before_month_step) simp_all
    moreover have "28 \<le> days_in_month y (m + int k)"
      using Suc.prems assms(1) by (intro days_in_month_bounds) simp_all
    moreover have "m + int (Suc k) = (m + int k) + 1" by simp
    ultimately show ?case by (simp only:)
  qed
  from this [of "nat (m' - m)"] assms show ?thesis by simp
qed

lemma days_before_month_last:
  "days_before_month y 12 + days_in_month y 12 = 365 + (if is_leap y then 1 else 0)"
  by (simp add: days_before_month_def days_in_month_def DAYS_BEFORE_MONTH_def DAYS_IN_MONTH_def)

lemma days_before_month_first: "days_before_month y 1 = 0"
  by (simp add: days_before_month_def DAYS_BEFORE_MONTH_def)

lemma div_step:
  assumes "0 < (n::int)"
  shows "y div n = (y - 1) div n + (if y mod n = 0 then 1 else 0)"
proof -
  define q where "q = (y - 1) div n"
  define r where "r = (y - 1) mod n"
  have r: "0 \<le> r" "r < n"
    using assms by (simp_all add: r_def)
  have "y - 1 = q * n + r"
    unfolding q_def r_def by simp
  then have y: "y = q * n + (r + 1)"
    by simp
  have "(q * n + (r + 1)) div n = q + (if (q * n + (r + 1)) mod n = 0 then 1 else 0)"
  proof (cases "r + 1 = n")
    case True
    then show ?thesis
      using assms by simp
  next
    case False
    with r have less: "r + 1 < n"
      by simp
    with r assms show ?thesis
      by (simp add: div_pos_pos_trivial mod_pos_pos_trivial)
  qed
  then have "y div n = q + (if y mod n = 0 then 1 else 0)"
    by (simp only: y [symmetric])
  then show ?thesis
    by (simp only: q_def)
qed

lemma leap_indicator:
  fixes A B C :: bool
  assumes "B \<Longrightarrow> A" and "C \<Longrightarrow> B"
  shows "(if A then 1 else 0) - (if B then 1 else 0) + (if C then 1 else 0) =
    (if A \<and> (\<not> B \<or> C) then 1 else (0::int))"
  using assms by (cases A; cases B; cases C) simp_all

lemma days_before_year_Suc:
  "days_before_year (y + 1) = days_before_year y + 365 + (if is_leap y then 1 else 0)"
proof -
  define e4 :: int where "e4 = (if y mod 4 = 0 then 1 else 0)"
  define e100 :: int where "e100 = (if y mod 100 = 0 then 1 else 0)"
  define e400 :: int where "e400 = (if y mod 400 = 0 then 1 else 0)"
  define p4 p100 p400 where "p4 = (y - 1) div 4" and "p100 = (y - 1) div 100"
    and "p400 = (y - 1) div 400"
  define q4 q100 q400 where "q4 = y div 4" and "q100 = y div 100" and "q400 = y div 400"
  have 4: "q4 = p4 + e4"
    unfolding e4_def p4_def q4_def by (rule div_step) simp
  have 100: "q100 = p100 + e100"
    unfolding e100_def p100_def q100_def by (rule div_step) simp
  have 400: "q400 = p400 + e400"
    unfolding e400_def p400_def q400_def by (rule div_step) simp
  have next_year: "days_before_year (y + 1) = y * 365 + q4 - q100 + q400"
    unfolding days_before_year_def Let_def q4_def q100_def q400_def by simp
  have this_year: "days_before_year y = y * 365 - 365 + p4 - p100 + p400"
    unfolding days_before_year_def Let_def p4_def p100_def p400_def
    by (simp only: left_diff_distrib mult_1)
  have step: "days_before_year (y + 1) = days_before_year y + 365 + (e4 - e100 + e400)"
    unfolding next_year this_year 4 100 400 by simp
  have a: "y mod 4 = 0" if "y mod 100 = 0"
    using that mod_mod_cancel [of 4 100 y] by simp
  have b: "y mod 100 = 0" if "y mod 400 = 0"
    using that mod_mod_cancel [of 100 400 y] by simp
  have "e4 - e100 + e400 = (if is_leap y then 1 else 0)"
    unfolding e4_def e100_def e400_def is_leap_def using a b by (rule leap_indicator)
  with step show ?thesis by (simp only:)
qed

lemma days_before_year_mono:
  assumes "y \<le> y'"
  shows "days_before_year y \<le> days_before_year y'"
proof -
  have "days_before_year y \<le> days_before_year (y + int k)" for k
  proof (induction k)
    case 0
    then show ?case by simp
  next
    case (Suc k)
    have "days_before_year ((y + int k) + 1) \<ge> days_before_year (y + int k)"
      by (simp add: days_before_year_Suc)
    moreover have "y + int (Suc k) = (y + int k) + 1" by simp
    ultimately show ?case using Suc.IH by (simp only:) 
  qed
  from this [of "nat (y' - y)"] assms show ?thesis by simp
qed


lemma date_new_Inr:
  "date_new y m d = Inr x \<longleftrightarrow>
     x = \<lparr>year = y, month = m, day = d\<rparr> \<and> 1 \<le> y \<and> y \<le> 9999 \<and> 1 \<le> m \<and> m \<le> 12 \<and>
     1 \<le> d \<and> d \<le> days_in_month y m"
  by (auto simp: date_new_def MINYEAR_def MAXYEAR_def)

lemma valid_date_iff:
  "valid_date d \<longleftrightarrow>
     1 \<le> year d \<and> year d \<le> 9999 \<and> 1 \<le> month d \<and> month d \<le> 12 \<and>
     1 \<le> day d \<and> day d \<le> days_in_month (year d) (month d)"
  by (auto simp: valid_date_def date_new_Inr)

lemma days_before_month_nonneg:
  assumes "1 \<le> m" "m \<le> 12"
  shows "0 \<le> days_before_month y m"
  using days_before_month_mono [of 1 m y] assms by (simp add: days_before_month_first)

lemma days_before_month_end:
  assumes "1 \<le> m" "m \<le> 12"
  shows "days_before_month y m + days_in_month y m \<le> 365 + (if is_leap y then 1 else 0)"
  using days_before_month_mono [of m 12 y] assms days_before_month_last [of y]
    month_cases [OF assms]
proof (cases "m = 12")
  case True
  then show ?thesis using days_before_month_last [of y] by simp
next
  case False
  with assms have "m < 12" by simp
  with assms have "days_before_month y (m + 1) = days_before_month y m + days_in_month y m"
    by (intro days_before_month_step)
  moreover have "days_before_month y (m + 1) \<le> days_before_month y 12"
    using assms \<open>m < 12\<close> by (intro days_before_month_mono) simp_all
  moreover have "28 \<le> days_in_month y 12"
    by (intro days_in_month_bounds) simp_all
  ultimately show ?thesis using days_before_month_last [of y] by linarith
qed

lemma toordinal_mono:
  assumes a: "valid_date a" and b: "valid_date b" and nlt: "\<not> date_lt a b"
  shows "toordinal b \<le> toordinal a"
proof -
  from a have A: "1 \<le> month a" "month a \<le> 12" "1 \<le> day a"
    "day a \<le> days_in_month (year a) (month a)"
    by (simp_all add: valid_date_iff)
  from b have B: "1 \<le> month b" "month b \<le> 12" "1 \<le> day b"
    "day b \<le> days_in_month (year b) (month b)"
    by (simp_all add: valid_date_iff)
  from nlt consider (year) "year b < year a"
    | (month) "year b = year a" "month b < month a"
    | (day) "year b = year a" "month b = month a" "day b \<le> day a"
    unfolding date_lt_def by fastforce
  then show ?thesis
  proof cases
    case year
    have "toordinal b \<le> days_before_year (year b) + 365 + (if is_leap (year b) then 1 else 0)"
      unfolding toordinal_def using days_before_month_end [OF B(1,2), of "year b"] B(4)
      by linarith
    also have "\<dots> = days_before_year (year b + 1)"
      by (simp add: days_before_year_Suc)
    also have "\<dots> \<le> days_before_year (year a)"
      using year by (intro days_before_year_mono) simp
    also have "\<dots> \<le> toordinal a"
      unfolding toordinal_def using days_before_month_nonneg [OF A(1,2), of "year a"] A(3)
      by linarith
    finally show ?thesis .
  next
    case month
    have "days_before_month (year b) (month b) + day b \<le>
        days_before_month (year b) (month b) + days_in_month (year b) (month b)"
      using B(4) by simp
    also have "\<dots> = days_before_month (year b) (month b + 1)"
      using B(1) month(2) A(2) by (intro days_before_month_step [symmetric]) simp_all
    also have "\<dots> \<le> days_before_month (year b) (month a)"
      using B(1) month(2) A(2) by (intro days_before_month_mono) simp_all
    finally show ?thesis
      unfolding toordinal_def using month(1) A(3) by simp
  next
    case day
    then show ?thesis
      by (simp add: toordinal_def)
  qed
qed

subsection \<open>Birthday validation\<close>

lemma match_items_sound:
  "match_items cs s = Some (t, r) \<Longrightarrow> s = t @ r \<and> list_all2 in_class t cs"
proof (induction cs s arbitrary: t rule: match_items.induct)
  case (1 s)
  then show ?case by simp
next
  case (2 c cs)
  then show ?case by simp
next
  case (3 c cs x xs)
  from "3.prems" have x: "in_class x c"
    by (simp split: if_splits)
  with "3.prems" obtain t' where t': "match_items cs xs = Some (t', r)" "t = x # t'"
    by (auto split: option.splits)
  from "3.IH" [OF x t'(1)] x t'(2) show ?case
    by simp
qed

lemma match_items_complete:
  "list_all2 in_class t cs \<Longrightarrow> match_items cs (t @ r) = Some (t, r)"
  by (induction t cs rule: list_all2_induct) simp_all

lemma match_items_Some:
  "match_items cs s = Some (t, r) \<longleftrightarrow> s = t @ r \<and> list_all2 in_class t cs"
  using match_items_sound match_items_complete by blast

lemma set_map_filter_iff:
  "y \<in> set (List.map_filter f xs) \<longleftrightarrow> (\<exists>x \<in> set xs. f x = Some y)"
  by (induction xs) (auto simp: map_filter_simps split: option.splits)

lemma match_group_set:
  "(t, r) \<in> set (match_group alts s) \<longleftrightarrow>
     s = t @ r \<and> (\<exists>alt \<in> set alts. list_all2 in_class t alt)"
  by (auto simp: match_group_def set_map_filter_iff match_items_Some)

lemma regex_d_texts: "(\<exists>alt \<in> set regex_d. list_all2 in_class t alt) \<longleftrightarrow> day_text t"
  by (auto simp: regex_d_def day_text_def between_def list_all2_Cons2 split: list.splits)

lemma regex_m_texts: "(\<exists>alt \<in> set regex_m. list_all2 in_class t alt) \<longleftrightarrow> month_text t"
  by (auto simp: regex_m_def month_text_def between_def list_all2_Cons2 split: list.splits)

lemma regex_Y_texts: "(\<exists>alt \<in> set regex_Y. list_all2 in_class t alt) \<longleftrightarrow> year_text t"
proof
  assume "\<exists>alt \<in> set regex_Y. list_all2 in_class t alt"
  then show "year_text t"
    by (auto simp: regex_Y_def year_text_def list_all2_Cons2)
next
  assume "year_text t"
  then obtain a b c d where "t = [a, b, c, d]"
    by (auto simp: year_text_def length_Suc_conv numeral_eq_Suc)
  with \<open>year_text t\<close> show "\<exists>alt \<in> set regex_Y. list_all2 in_class t alt"
    by (simp add: regex_Y_def year_text_def)
qed

lemma regex_dot_texts: "(\<exists>alt \<in> set regex_dot. list_all2 in_class t alt) \<longleftrightarrow> t = str ''.''"
  by (auto simp: regex_dot_def list_all2_Cons2 str_def)

lemma match_format_set:
  "(d, m, Y, r) \<in> set (match_format s) \<longleftrightarrow>
     s = d @ str ''.'' @ m @ str ''.'' @ Y @ r \<and> day_text d \<and> month_text m \<and> year_text Y"
proof -
  have "(d, m, Y, r) \<in> set (match_format s) \<longleftrightarrow>
      (\<exists>r1 dot1 r2 r3 dot2 r4.
         (d, r1) \<in> set (match_group regex_d s) \<and> (dot1, r2) \<in> set (match_group regex_dot r1) \<and>
         (m, r3) \<in> set (match_group regex_m r2) \<and> (dot2, r4) \<in> set (match_group regex_dot r3) \<and>
         (Y, r) \<in> set (match_group regex_Y r4))"
    unfolding match_format_def by fastforce
  also have "\<dots> \<longleftrightarrow>
      s = d @ str ''.'' @ m @ str ''.'' @ Y @ r \<and> day_text d \<and> month_text m \<and> year_text Y"
    unfolding match_group_set regex_d_texts regex_m_texts regex_Y_texts regex_dot_texts
    by auto
  finally show ?thesis .
qed

lemma day_text_no_dot: "day_text d \<Longrightarrow> 46 \<notin> set d"
  by (auto simp: day_text_def between_def split: list.splits dest: decimal_not_dot)

lemma month_text_no_dot: "month_text m \<Longrightarrow> 46 \<notin> set m"
  by (auto simp: month_text_def between_def split: list.splits)

lemma split_at_dot:
  "c \<notin> set a \<Longrightarrow> c \<notin> set a' \<Longrightarrow> a @ c # x = a' @ c # x' \<Longrightarrow> a = a' \<and> x = x'"
proof (induction a arbitrary: a')
  case Nil
  then show ?case by (cases a') auto
next
  case (Cons h a)
  then show ?case by (cases a') auto
qed

lemma match_format_unique:
  assumes "p \<in> set (match_format s)" "q \<in> set (match_format s)"
  shows "p = q"
proof -
  obtain d m Y r where p: "p = (d, m, Y, r)" by (cases p)
  obtain d' m' Y' r' where q: "q = (d', m', Y', r')" by (cases q)
  from assms(1) have P: "s = d @ 46 # (m @ 46 # (Y @ r))" "day_text d"
    "month_text m" "year_text Y"
    by (simp_all add: p match_format_set str_dot)
  from assms(2) have Q: "s = d' @ 46 # (m' @ 46 # (Y' @ r'))" "day_text d'"
    "month_text m'" "year_text Y'"
    by (simp_all add: q match_format_set str_dot)
  from P(1) Q(1) have "d @ 46 # (m @ 46 # (Y @ r)) = d' @ 46 # (m' @ 46 # (Y' @ r'))"
    by simp
  from split_at_dot [OF day_text_no_dot [OF P(2)] day_text_no_dot [OF Q(2)] this]
  have d: "d = d'" and 1: "m @ 46 # (Y @ r) = m' @ 46 # (Y' @ r')"
    by simp_all
  from split_at_dot [OF month_text_no_dot [OF P(3)] month_text_no_dot [OF Q(3)] 1]
  have m: "m = m'" and 2: "Y @ r = Y' @ r'"
    by simp_all
  from P(4) Q(4) have "length Y = length Y'"
    by (simp add: year_text_def)
  with 2 have "Y = Y'" "r = r'"
    by simp_all
  with d m show ?thesis
    by (simp add: p q)
qed

lemma match_format_first:
  assumes "p \<in> set (match_format s)"
  shows "\<exists>ps. match_format s = p # ps"
proof (cases "match_format s")
  case Nil
  with assms show ?thesis by simp
next
  case (Cons q ps)
  then have "q \<in> set (match_format s)" by simp
  from match_format_unique [OF this assms] Cons show ?thesis by simp
qed

lemma py_int_error: "py_int t = Inl e \<Longrightarrow> \<exists>msg. e = ValueError msg"
  by (auto simp: py_int_def Let_def split: if_splits)

lemma date_new_error: "date_new y m d = Inl e \<Longrightarrow> \<exists>msg. e = ValueError msg"
  by (auto simp: date_new_def split: if_splits)

lemma strptime_error: "strptime s = Inl e \<Longrightarrow> \<exists>msg. e = ValueError msg"
  unfolding strptime_def
  by (auto split: list.splits if_splits sum.splits dest: py_int_error date_new_error)

lemma validate_birthday_Inr: "validate_birthday s = Inr dt \<longleftrightarrow> strptime s = Inr dt"
  by (auto simp: validate_birthday_def split: sum.splits error.splits)

lemma validate_birthday_Inl:
  "validate_birthday s = Inl e \<Longrightarrow> e = ValueError ''Invalid date format. Use DD.MM.YYYY''"
  by (auto simp: validate_birthday_def split: sum.splits error.splits dest: strptime_error)

lemma strptime_Inr:
  "strptime s = Inr dt \<longleftrightarrow>
     (\<exists>d m Y d' m' y'. s = d @ str ''.'' @ m @ str ''.'' @ Y \<and> day_text d \<and> month_text m \<and>
        year_text Y \<and> py_int d = Inr d' \<and> py_int m = Inr m' \<and> py_int Y = Inr y' \<and>
        date_new y' m' d' = Inr dt)"
proof
  assume ok: "strptime s = Inr dt"
  then obtain d m Y r ps where mf: "match_format s = (d, m, Y, r) # ps"
    by (auto simp: strptime_def split: list.splits)
  with ok have r: "r = []"
    by (auto simp: strptime_def split: if_splits)
  from mf have "(d, m, Y, r) \<in> set (match_format s)" by simp
  then have s: "s = d @ str ''.'' @ m @ str ''.'' @ Y" "day_text d" "month_text m" "year_text Y"
    by (simp_all add: match_format_set r)
  from ok mf r obtain d' m' y' where "py_int d = Inr d'" "py_int m = Inr m'" "py_int Y = Inr y'"
    "date_new y' m' d' = Inr dt"
    by (auto simp: strptime_def split: sum.splits)
  with s show "\<exists>d m Y d' m' y'. s = d @ str ''.'' @ m @ str ''.'' @ Y \<and> day_text d \<and>
      month_text m \<and> year_text Y \<and> py_int d = Inr d' \<and> py_int m = Inr m' \<and>
      py_int Y = Inr y' \<and> date_new y' m' d' = Inr dt"
    by blast
next
  assume "\<exists>d m Y d' m' y'. s = d @ str ''.'' @ m @ str ''.'' @ Y \<and> day_text d \<and>
      month_text m \<and> year_text Y \<and> py_int d = Inr d' \<and> py_int m = Inr m' \<and>
      py_int Y = Inr y' \<and> date_new y' m' d' = Inr dt"
  then obtain d m Y d' m' y' where s: "s = d @ str ''.'' @ m @ str ''.'' @ Y" "day_text d"
    "month_text m" "year_text Y" and n: "py_int d = Inr d'" "py_int m = Inr m'"
    "py_int Y = Inr y'" "date_new y' m' d' = Inr dt"
    by blast
  from s have "(d, m, Y, []) \<in> set (match_format s)"
    by (simp add: match_format_set)
  from match_format_first [OF this] obtain ps where "match_format s = (d, m, Y, []) # ps" ..
  with n show "strptime s = Inr dt"
    by (simp add: strptime_def)
qed

lemma dropWhile_hd: "xs \<noteq> [] \<Longrightarrow> \<not> P (hd xs) \<Longrightarrow> dropWhile P xs = xs"
  by (cases xs) simp_all

lemma strip_digits:
  assumes "list_all isdecimal_char t"
  shows "strip t = t"
proof (cases "t = []")
  case True
  then show ?thesis by (simp add: strip_def)
next
  case False
  with assms have "\<not> int_space_char (hd t)" "\<not> int_space_char (last t)"
    by (simp_all add: list_all_iff decimal_not_space)
  with False have "dropWhile int_space_char t = t" "dropWhile int_space_char (rev t) = rev t"
    by (simp_all add: dropWhile_hd hd_rev)
  then show ?thesis by (simp add: strip_def)
qed

lemma py_int_digits:
  assumes "t \<noteq> []" "list_all isdecimal_char t"
  shows "py_int t = Inr (text_number t)"
proof -
  from assms(2) have "filter isdecimal_char t = t"
    by (simp add: list_all_iff)
  with assms strip_digits [OF assms(2)] show ?thesis
    by (simp add: py_int_def text_number_def)
qed

lemma py_int_space_digit:
  assumes "isdecimal_char b"
  shows "py_int [32, b] = Inr (text_number [32, b])"
proof -
  have "strip [32, b] = [b]"
    using decimal_not_space [OF assms] by (simp add: strip_def space_is_space)
  with assms show ?thesis
    by (simp add: py_int_def text_number_def space_is_space)
qed

lemma day_text_shape:
  assumes "day_text d"
  shows "(d \<noteq> [] \<and> list_all isdecimal_char d) \<or> (\<exists>b. d = [32, b] \<and> isdecimal_char b)"
  using assms
  by (auto simp: day_text_def between_def isdecimal_ascii split: list.splits)

lemma py_int_day: "day_text d \<Longrightarrow> py_int d = Inr (text_number d)"
  using day_text_shape [of d] py_int_digits [of d] py_int_space_digit by blast

lemma py_int_month: "month_text m \<Longrightarrow> py_int m = Inr (text_number m)"
proof -
  assume "month_text m"
  then have "m \<noteq> []" "list_all isdecimal_char m"
    by (auto simp: month_text_def between_def isdecimal_ascii split: list.splits)
  then show ?thesis by (rule py_int_digits)
qed

lemma py_int_year: "year_text Y \<Longrightarrow> py_int Y = Inr (text_number Y)"
proof -
  assume "year_text Y"
  then have "Y \<noteq> []" "list_all isdecimal_char Y"
    by (auto simp: year_text_def)
  then show ?thesis by (rule py_int_digits)
qed

lemma strptime_Inr_number:
  "strptime s = Inr dt \<longleftrightarrow>
     (\<exists>d m Y. s = d @ str ''.'' @ m @ str ''.'' @ Y \<and> day_text d \<and> month_text m \<and> year_text Y \<and>
        date_new (text_number Y) (text_number m) (text_number d) = Inr dt)"
  unfolding strptime_Inr using py_int_day py_int_month py_int_year by fastforce

lemma text_number_two:
  assumes "between CHR ''0'' CHR ''9'' a" "between CHR ''0'' CHR ''9'' b"
  shows "text_number [a, b] = 10 * (int a - 48) + (int b - 48)"
proof -
  from assms have a: "48 \<le> a" "a \<le> 57" and b: "48 \<le> b" "b \<le> 57"
    by (simp_all add: between_def)
  then have "isdecimal_char a" "isdecimal_char b" "digit_val a = a - 48" "digit_val b = b - 48"
    by (simp_all add: isdecimal_ascii digit_val_def ascii_decimal_value)
  with a b show ?thesis
    by (simp add: text_number_def)
qed

lemma two_digit_day:
  assumes a: "between CHR ''0'' CHR ''9'' a" and b: "between CHR ''0'' CHR ''9'' b"
  shows "day_text [a, b] \<longleftrightarrow> 1 \<le> text_number [a, b] \<and> text_number [a, b] \<le> 31"
proof -
  from a b have *: "48 \<le> a" "a \<le> 57" "48 \<le> b" "b \<le> 57"
    by (simp_all add: between_def)
  then have "isdecimal_char b"
    by (simp add: isdecimal_ascii)
  then have "day_text [a, b] \<longleftrightarrow>
      (a = 48 \<and> 49 \<le> b) \<or> (49 \<le> a \<and> a \<le> 50) \<or> (a = 51 \<and> b \<le> 49)"
    using * by (auto simp: day_text_def between_def)
  also have "\<dots> \<longleftrightarrow> 1 \<le> 10 * (int a - 48) + (int b - 48) \<and>
      10 * (int a - 48) + (int b - 48) \<le> 31"
    using * by arith
  finally show ?thesis
    by (simp add: text_number_two [OF a b])
qed

lemma two_digit_month:
  assumes a: "between CHR ''0'' CHR ''9'' a" and b: "between CHR ''0'' CHR ''9'' b"
  shows "month_text [a, b] \<longleftrightarrow> 1 \<le> text_number [a, b] \<and> text_number [a, b] \<le> 12"
proof -
  from a b have *: "48 \<le> a" "a \<le> 57" "48 \<le> b" "b \<le> 57"
    by (simp_all add: between_def)
  have "month_text [a, b] \<longleftrightarrow> (a = 48 \<and> 49 \<le> b) \<or> (a = 49 \<and> b \<le> 50)"
    using * by (auto simp: month_text_def between_def)
  also have "\<dots> \<longleftrightarrow> 1 \<le> 10 * (int a - 48) + (int b - 48) \<and>
      10 * (int a - 48) + (int b - 48) \<le> 12"
    using * by arith
  finally show ?thesis
    by (simp add: text_number_two [OF a b])
qed

lemma strict_format_shape:
  assumes "strict_format s"
  shows "\<exists>a b c d Y. s = [a, b] @ str ''.'' @ [c, d] @ str ''.'' @ Y \<and>
    between CHR ''0'' CHR ''9'' a \<and> between CHR ''0'' CHR ''9'' b \<and>
    between CHR ''0'' CHR ''9'' c \<and> between CHR ''0'' CHR ''9'' d \<and> year_text Y \<and>
    take 2 s = [a, b] \<and> take 2 (drop 3 s) = [c, d] \<and> drop 6 s = Y"
proof -
  from assms have "length s = 10"
    by (simp add: strict_format_def)
  then obtain x0 x1 x2 x3 x4 x5 x6 x7 x8 x9 where s: "s = [x0, x1, x2, x3, x4, x5, x6, x7, x8, x9]"
    by (auto simp: length_Suc_conv numeral_eq_Suc)
  from assms show ?thesis
    unfolding s strict_format_def year_text_def
    by (intro exI [of _ x0] exI [of _ x1] exI [of _ x3] exI [of _ x4]
        exI [of _ "[x6, x7, x8, x9]"]) (simp add: str_dot between_decimal)
qed

lemma strict_format_accepted:
  assumes "strict_format s"
  shows "strptime s = Inr dt \<longleftrightarrow>
    date_new (text_number (drop 6 s)) (text_number (take 2 (drop 3 s))) (text_number (take 2 s)) =
      Inr dt"
proof -
  from strict_format_shape [OF assms] obtain a b c d Y where
    s: "s = [a, b] @ str ''.'' @ [c, d] @ str ''.'' @ Y" and
    digits: "between CHR ''0'' CHR ''9'' a" "between CHR ''0'' CHR ''9'' b"
      "between CHR ''0'' CHR ''9'' c" "between CHR ''0'' CHR ''9'' d" and
    Y: "year_text Y" and
    parts: "take 2 s = [a, b]" "take 2 (drop 3 s) = [c, d]" "drop 6 s = Y"
    by blast
  have nodot: "46 \<notin> set [a, b]" "46 \<notin> set [c, d]"
    using digits by (auto simp: between_def)
  show ?thesis
  proof
    assume "strptime s = Inr dt"
    then obtain d' m' Y' where s': "s = d' @ str ''.'' @ m' @ str ''.'' @ Y'" and
      texts: "day_text d'" "month_text m'" "year_text Y'" and
      ok: "date_new (text_number Y') (text_number m') (text_number d') = Inr dt"
      unfolding strptime_Inr_number by blast
    from s s' have "[a, b] @ 46 # ([c, d] @ 46 # Y) = d' @ 46 # (m' @ 46 # Y')"
      by (simp add: str_dot)
    from split_at_dot [OF nodot(1) day_text_no_dot [OF texts(1)] this]
    have 1: "[a, b] = d'" "[c, d] @ 46 # Y = m' @ 46 # Y'"
      by simp_all
    from split_at_dot [OF nodot(2) month_text_no_dot [OF texts(2)] 1(2)]
    have 2: "[c, d] = m'" "Y = Y'"
      by simp_all
    from ok 1(1) 2 parts show "date_new (text_number (drop 6 s))
        (text_number (take 2 (drop 3 s))) (text_number (take 2 s)) = Inr dt"
      by simp
  next
    assume "date_new (text_number (drop 6 s)) (text_number (take 2 (drop 3 s)))
      (text_number (take 2 s)) = Inr dt"
    then have ok: "date_new (text_number Y) (text_number [c, d]) (text_number [a, b]) = Inr dt"
      by (simp add: parts)
    then have m: "1 \<le> text_number [c, d]" "text_number [c, d] \<le> 12"
      and d1: "1 \<le> text_number [a, b]"
      and d2: "text_number [a, b] \<le> days_in_month (text_number Y) (text_number [c, d])"
      by (simp_all add: date_new_Inr)
    from days_in_month_bounds(2) [OF m] d2 have "text_number [a, b] \<le> 31"
      by (rule order_trans [rotated])
    with d1 digits have "day_text [a, b]"
      by (simp add: two_digit_day)
    moreover from m digits have "month_text [c, d]"
      by (simp add: two_digit_month)
    ultimately show "strptime s = Inr dt"
      unfolding strptime_Inr_number using s Y ok by blast
  qed
qed

lemma add_birthday_phones: "phones (snd (add_birthday birthday_str r)) = phones r"
  by (cases "Birthday_init birthday_str") (simp_all add: add_birthday_def)

text \<open>
  The class \<^verbatim>\<open>\d\<close> and \<^verbatim>\<open>int\<close> take the decimal digits of every script: the second
  digit of a day from 10 to 29 and the four digits of the year may be, for example,
  Arabic-Indic digits (code points 0x660 to 0x669).
\<close>

lemma validate_birthday_other_scripts:
  "validate_birthday (str ''1'' @ [0x665] @ str ''.03.2024'') =
     Inr \<lparr>year = 2024, month = 3, day = 15\<rparr>"
  "validate_birthday (str ''01.01.'' @ [0x662, 0x660, 0x662, 0x664]) =
     Inr \<lparr>year = 2024, month = 1, day = 1\<rparr>"
  "validate_birthday ([0x660] @ str ''1.01.2024'') =
     Inl (ValueError ''Invalid date format. Use DD.MM.YYYY'')"
  by (simp_all add: validate_birthday_def strptime_def match_format_def match_group_def
      List.map_filter_def regex_d_def regex_m_def regex_Y_def regex_dot_def py_int_def
      strip_def int_space_char_def in_ranges_def int_spaces_def isdecimal_char_def
      digit_val_def decimal_value_def decimal_zeros_def date_new_def MINYEAR_def MAXYEAR_def
      days_in_month_def DAYS_IN_MONTH_def str_def)

text \<open>
  C2, as claimed: a string is accepted if and only if it is a valid date written
  exactly as DD.MM.YYYY, and every other string is rejected. The code accepts
  \<^verbatim>\<open>1.3.2024\<close>, which has a one-digit day and a one-digit month.
\<close>

theorem validate_birthday_unpadded_counterexample:
  "validate_birthday (str ''1.3.2024'') = Inr \<lparr>year = 2024, month = 3, day = 1\<rparr> \<and>
   \<not> strict_format (str ''1.3.2024'')"
  by (simp add: validate_birthday_def strptime_def match_format_def match_group_def
      List.map_filter_def regex_d_def regex_m_def regex_Y_def regex_dot_def py_int_def
      strip_def int_space_char_def in_ranges_def int_spaces_def isdecimal_char_def
      digit_val_def decimal_value_def decimal_zeros_def date_new_def MINYEAR_def MAXYEAR_def
      days_in_month_def DAYS_IN_MONTH_def strict_format_def str_def)

text \<open>
  C2, amended. A string is accepted if and only if it is a day text, a dot, a month
  text, a dot and a year text and the three numbers are a date the calendar has (year 1
  to 9999); the result is that date. The texts are those of \<^const>\<open>day_text\<close>,
  \<^const>\<open>month_text\<close> and \<^const>\<open>year_text\<close>: a day of one or two characters (1 to 9;
  0 or a space, then 1 to 9; 1 or 2, then a decimal digit of any script; 3, then 0 or
  1), a month of one or two (1 to 9; 0, then 1 to 9; 1, then 0 to 2), a year of four
  decimal digits of any script. So a string written exactly as DD.MM.YYYY with the
  digits 0 to 9 is accepted if and only if its numbers are a date the calendar has.
  Every string that is rejected is rejected with the \<^verbatim>\<open>ValueError\<close> that names the
  format DD.MM.YYYY.
\<close>

theorem validate_birthday_accepts:
  "(validate_birthday s = Inr dt \<longleftrightarrow>
      (\<exists>d m Y. s = d @ str ''.'' @ m @ str ''.'' @ Y \<and> day_text d \<and> month_text m \<and>
         year_text Y \<and> date_new (text_number Y) (text_number m) (text_number d) = Inr dt)) \<and>
   (strict_format s \<longrightarrow>
      (validate_birthday s = Inr dt \<longleftrightarrow>
         date_new (text_number (drop 6 s)) (text_number (take 2 (drop 3 s)))
           (text_number (take 2 s)) = Inr dt)) \<and>
   (validate_birthday s = Inl e \<longrightarrow> e = ValueError ''Invalid date format. Use DD.MM.YYYY'')"
  using validate_birthday_Inl [of s e] strict_format_accepted [of s dt]
  by (simp add: validate_birthday_Inr strptime_Inr_number)

theorem validate_birthday_accepts_witness:
  "strict_format (str ''29.02.2024'') \<and>
   validate_birthday (str ''29.02.2024'') = Inr \<lparr>year = 2024, month = 2, day = 29\<rparr> \<and>
   validate_birthday (str ''29.02.2023'') =
     Inl (ValueError ''Invalid date format. Use DD.MM.YYYY'')"
proof -
  have strict: "strict_format (str ''29.02.2024'')"
    by (simp add: strict_format_def between_def str_def)
  have leap: "date_new (text_number (drop 6 (str ''29.02.2024'')))
      (text_number (take 2 (drop 3 (str ''29.02.2024''))))
      (text_number (take 2 (str ''29.02.2024''))) =
      Inr \<lparr>year = 2024, month = 2, day = 29\<rparr>"
    by (simp add: text_number_def isdecimal_ascii digit_val_def ascii_decimal_value date_new_def
        MINYEAR_def MAXYEAR_def days_in_month_def is_leap_def str_def)
  from validate_birthday_accepts [of "str ''29.02.2024''" "\<lparr>year = 2024, month = 2, day = 29\<rparr>"]
    strict leap
  have 1: "validate_birthday (str ''29.02.2024'') = Inr \<lparr>year = 2024, month = 2, day = 29\<rparr>"
    by blast
  have "isl (validate_birthday (str ''29.02.2023''))"
    by (simp add: validate_birthday_def strptime_def match_format_def match_group_def
        List.map_filter_def regex_d_def regex_m_def regex_Y_def regex_dot_def py_int_def
        strip_def int_space_char_def in_ranges_def int_spaces_def isdecimal_char_def
        digit_val_def decimal_value_def decimal_zeros_def date_new_def MINYEAR_def
        MAXYEAR_def days_in_month_def DAYS_IN_MONTH_def is_leap_def str_def)
  then obtain e where e: "validate_birthday (str ''29.02.2023'') = Inl e"
    by (cases "validate_birthday (str ''29.02.2023'')") simp_all
  with validate_birthday_accepts [of "str ''29.02.2023''" undefined e]
  have "e = ValueError ''Invalid date format. Use DD.MM.YYYY''"
    by blast
  with strict 1 e show ?thesis by simp
qed

subsection \<open>The phone list of a record\<close>

lemma phone_value_eq: "phone_value p = x \<longleftrightarrow> p = Phone x"
  by (cases p) auto

lemma find_phone_loop_absent:
  "x \<notin> phone_value ` set ps \<Longrightarrow>
   find_phone_loop ps x = Inl (ValueError ''Phone number not found.'')"
  by (induction ps) auto

lemma find_phone_loop_present:
  "x \<in> phone_value ` set ps \<Longrightarrow> find_phone_loop ps x = Inr (Phone x)"
  by (induction ps) (auto simp: phone_value_eq)

lemma find_phone_absent:
  "x \<notin> phone_value ` set (phones r) \<Longrightarrow>
   find_phone r x = Inl (ValueError ''Phone number not found.'')"
  by (simp add: find_phone_def find_phone_loop_absent)

lemma find_phone_present:
  "x \<in> phone_value ` set (phones r) \<Longrightarrow> find_phone r x = Inr (Phone x)"
  by (simp add: find_phone_def find_phone_loop_present)

text \<open>
  \<^verbatim>\<open>list.index\<close> and \<^verbatim>\<open>list.remove\<close> act at the first position that holds the entry.
\<close>

lemma first_match:
  "x \<in> set xs \<Longrightarrow>
   \<exists>i<length xs. xs ! i = x \<and> (\<forall>j<i. xs ! j \<noteq> x) \<and> list_index xs x = Inr i \<and>
     list_remove xs x = Inr (take i xs @ drop (Suc i) xs)"
proof (induction xs)
  case Nil
  then show ?case by simp
next
  case (Cons y ys)
  show ?case
  proof (cases "y = x")
    case True
    then show ?thesis by (intro exI [of _ 0]) simp
  next
    case False
    with Cons.prems have "x \<in> set ys" by simp
    from Cons.IH [OF this] obtain i where i: "i < length ys" "ys ! i = x" "\<forall>j<i. ys ! j \<noteq> x"
      "list_index ys x = Inr i" "list_remove ys x = Inr (take i ys @ drop (Suc i) ys)"
      by blast
    have "\<forall>j<Suc i. (y # ys) ! j \<noteq> x"
      using False i(3) by (auto simp: less_Suc_eq_0_disj)
    with False i show ?thesis by (intro exI [of _ "Suc i"]) simp
  qed
qed

lemma first_match_phone:
  assumes "x \<in> phone_value ` set ps"
  shows "\<exists>i<length ps. phone_value (ps ! i) = x \<and> (\<forall>j<i. phone_value (ps ! j) \<noteq> x) \<and>
     list_index ps (Phone x) = Inr i \<and>
     list_remove ps (Phone x) = Inr (take i ps @ drop (Suc i) ps)"
proof -
  from assms have "Phone x \<in> set ps"
    by (auto simp: phone_value_eq)
  from first_match [OF this] show ?thesis
    by (simp add: phone_value_eq)
qed

lemma edit_phone_absent:
  "old \<notin> phone_value ` set (phones r) \<Longrightarrow>
   edit_phone old new r = (Inl (ValueError ''Phone number not found.''), r)"
  by (simp add: edit_phone_def find_phone_absent)

lemma edit_phone_invalid:
  "old \<in> phone_value ` set (phones r) \<Longrightarrow> validate_phone new = Inl e \<Longrightarrow>
   edit_phone old new r = (Inl e, r)"
  by (simp add: edit_phone_def find_phone_present Phone_init_def)

lemma edit_phone_present:
  assumes "old \<in> phone_value ` set (phones r)" and "passes_validation new"
  shows "\<exists>i<length (phones r). phone_value (phones r ! i) = old \<and>
           (\<forall>j<i. phone_value (phones r ! j) \<noteq> old) \<and>
           edit_phone old new r = (Inr (), r\<lparr>phones := (phones r)[i := Phone new]\<rparr>)"
proof -
  from first_match_phone [OF assms(1)] obtain i where i: "i < length (phones r)"
    "phone_value (phones r ! i) = old" "\<forall>j<i. phone_value (phones r ! j) \<noteq> old"
    "list_index (phones r) (Phone old) = Inr i"
    by blast
  have "Phone_init new = Inr (Phone new)"
    using assms(2) by (simp add: Phone_init_Inr)
  then have "edit_phone old new r = (Inr (), r\<lparr>phones := (phones r)[i := Phone new]\<rparr>)"
    using assms(1) i(1,4) by (simp add: edit_phone_def find_phone_present list_setitem_def)
  with i(1-3) show ?thesis by blast
qed

lemma remove_phone_absent:
  "raw \<notin> phone_value ` set (phones r) \<Longrightarrow>
   remove_phone raw r = (Inl (ValueError ''Phone number not found.''), r)"
  by (simp add: remove_phone_def find_phone_absent)

lemma remove_phone_present:
  assumes "raw \<in> phone_value ` set (phones r)"
  shows "\<exists>i<length (phones r). phone_value (phones r ! i) = raw \<and>
           (\<forall>j<i. phone_value (phones r ! j) \<noteq> raw) \<and>
           remove_phone raw r =
             (Inr (), r\<lparr>phones := take i (phones r) @ drop (Suc i) (phones r)\<rparr>)"
proof -
  from first_match_phone [OF assms] obtain i where i: "i < length (phones r)"
    "phone_value (phones r ! i) = raw" "\<forall>j<i. phone_value (phones r ! j) \<noteq> raw"
    "list_remove (phones r) (Phone raw) = Inr (take i (phones r) @ drop (Suc i) (phones r))"
    by blast
  have "remove_phone raw r =
      (Inr (), r\<lparr>phones := take i (phones r) @ drop (Suc i) (phones r)\<rparr>)"
    using assms i(4) by (simp add: remove_phone_def find_phone_present)
  with i(1-3) show ?thesis by blast
qed

lemma add_phone_invalid:
  "validate_phone raw = Inl e \<Longrightarrow> add_phone raw r = (Inl e, r)"
  by (simp add: add_phone_def Phone_init_def)

lemma add_phone_valid:
  "passes_validation raw \<Longrightarrow>
   add_phone raw r = (Inr (), r\<lparr>phones := phones r @ [Phone raw]\<rparr>)"
  using Phone_init_Inr [of raw "Phone raw"] by (simp add: add_phone_def)

lemma set_take_drop_subset: "set (take i xs @ drop (Suc i) xs) \<subseteq> set xs"
  by (auto dest: in_set_takeD in_set_dropD)



text \<open>
  C8. \<^verbatim>\<open>remove_phone\<close>: when no entry has the value the call raises the not-found
  \<^verbatim>\<open>ValueError\<close> and the record is as before; otherwise exactly the first entry with
  the value (position \<open>i\<close>, no earlier entry has the value) is deleted: the entries
  before and after it, later duplicates among them, stay in their order.
\<close>

theorem remove_phone_first:
  "(raw \<notin> phone_value ` set (phones r) \<longrightarrow>
      remove_phone raw r = (Inl (ValueError ''Phone number not found.''), r)) \<and>
   (raw \<in> phone_value ` set (phones r) \<longrightarrow>
      (\<exists>i<length (phones r). phone_value (phones r ! i) = raw \<and>
         (\<forall>j<i. phone_value (phones r ! j) \<noteq> raw) \<and>
         remove_phone raw r =
           (Inr (), r\<lparr>phones := take i (phones r) @ drop (Suc i) (phones r)\<rparr>)))"
  using remove_phone_absent [of raw r] remove_phone_present [of raw r] by blast

theorem remove_phone_first_witness:
  "remove_phone (str ''0670000000'')
     \<lparr>name = str ''Ann'',
      phones = [Phone (str ''0500000000''), Phone (str ''0501111111''),
        Phone (str ''0501111111'')],
      birthday = None\<rparr> =
   (Inl (ValueError ''Phone number not found.''),
     \<lparr>name = str ''Ann'',
      phones = [Phone (str ''0500000000''), Phone (str ''0501111111''),
        Phone (str ''0501111111'')],
      birthday = None\<rparr>) \<and>
   remove_phone (str ''0501111111'')
     \<lparr>name = str ''Ann'',
      phones = [Phone (str ''0500000000''), Phone (str ''0501111111''),
        Phone (str ''0501111111'')],
      birthday = None\<rparr> =
   (Inr (),
     \<lparr>name = str ''Ann'', phones = [Phone (str ''0500000000''), Phone (str ''0501111111'')],
      birthday = None\<rparr>)"
proof -
  let ?r = "\<lparr>name = str ''Ann'',
    phones = [Phone (str ''0500000000''), Phone (str ''0501111111''),
      Phone (str ''0501111111'')],
    birthday = None\<rparr>"
  have absent: "str ''0670000000'' \<notin> phone_value ` set (phones ?r)"
    by (simp add: str_def)
  have present: "str ''0501111111'' \<in> phone_value ` set (phones ?r)"
    by simp
  have 1: "remove_phone (str ''0670000000'') ?r =
      (Inl (ValueError ''Phone number not found.''), ?r)"
    using remove_phone_first [of "str ''0670000000''" ?r] absent by blast
  from remove_phone_first [of "str ''0501111111''" ?r] present
  obtain i where i: "i < length (phones ?r)"
    "phone_value (phones ?r ! i) = str ''0501111111''"
    "\<forall>j<i. phone_value (phones ?r ! j) \<noteq> str ''0501111111''"
    "remove_phone (str ''0501111111'') ?r =
       (Inr (), ?r\<lparr>phones := take i (phones ?r) @ drop (Suc i) (phones ?r)\<rparr>)"
    by blast
  have "i \<noteq> 0"
  proof
    assume "i = 0"
    with i(2) show False by (simp add: str_def)
  qed
  moreover have "i \<noteq> 2"
    using i(3) [rule_format, of 1] by auto
  moreover from i(1) have "i = 0 \<or> i = 1 \<or> i = 2"
    by auto
  ultimately have "i = 1"
    by blast
  with i(4) have 2: "remove_phone (str ''0501111111'') ?r =
      (Inr (), ?r\<lparr>phones := [Phone (str ''0500000000''), Phone (str ''0501111111'')]\<rparr>)"
    by simp
  from 1 2 show ?thesis by simp
qed

text \<open>
  What the code keeps: every entry of the phone list holds a string that passed
  \<^verbatim>\<open>Phone.__validate_phone\<close> (\<^const>\<open>passes_validation\<close>: length 10, every character
  accepted by \<^verbatim>\<open>str.isdigit\<close>). This is so of a new record, and \<^verbatim>\<open>add_phone\<close>,
  \<^verbatim>\<open>remove_phone\<close> and \<^verbatim>\<open>edit_phone\<close> keep it, whether they return or raise.
\<close>

lemma phones_validated_kept:
  "phones_validated (Record_init nm)"
  "phones_validated r \<Longrightarrow> phones_validated (snd (add_phone raw r))"
  "phones_validated r \<Longrightarrow> phones_validated (snd (remove_phone raw r))"
  "phones_validated r \<Longrightarrow> phones_validated (snd (edit_phone old new r))"
proof -
  show "phones_validated (Record_init nm)"
    by (simp add: phones_validated_def Record_init_def)
  show "phones_validated (snd (add_phone raw r))" if "phones_validated r"
    using that validate_phone_cases [of raw]
    by (auto simp: phones_validated_def add_phone_valid add_phone_invalid)
  show "phones_validated (snd (remove_phone raw r))" if "phones_validated r"
  proof (cases "raw \<in> phone_value ` set (phones r)")
    case True
    from remove_phone_present [OF this] obtain i where
      "remove_phone raw r = (Inr (), r\<lparr>phones := take i (phones r) @ drop (Suc i) (phones r)\<rparr>)"
      by blast
    then show ?thesis
      using that set_take_drop_subset [of i "phones r"]
      by (auto simp: phones_validated_def list_all_iff)
  next
    case False
    with that show ?thesis by (simp add: remove_phone_absent)
  qed
  show "phones_validated (snd (edit_phone old new r))" if "phones_validated r"
  proof (cases "old \<in> phone_value ` set (phones r)")
    case False
    with that show ?thesis by (simp add: edit_phone_absent)
  next
    case True
    from validate_phone_cases [of new] show ?thesis
    proof
      assume v: "passes_validation new"
      from edit_phone_present [OF True this] obtain i where
        "edit_phone old new r = (Inr (), r\<lparr>phones := (phones r)[i := Phone new]\<rparr>)"
        by blast
      then show ?thesis
        using that v set_update_subset_insert [of "phones r" i "Phone new"]
        by (auto simp: phones_validated_def list_all_iff)
    next
      assume "\<exists>e. validate_phone new = Inl e"
      then show ?thesis using True that by (auto simp: edit_phone_invalid)
    qed
  qed
qed

text \<open>
  C9. The claim: every entry of a record's phone list is a string of exactly ten digit
  characters, and \<^verbatim>\<open>add_phone\<close>, \<^verbatim>\<open>edit_phone\<close> and \<^verbatim>\<open>remove_phone\<close> keep it so,
  because an entry is made only by \<^verbatim>\<open>Phone\<close> construction. The code does not keep
  it: construction accepts what \<^verbatim>\<open>str.isdigit\<close> accepts, which is more than the ten
  decimal digits. Here \<^verbatim>\<open>add_phone\<close> on a new record, and \<^verbatim>\<open>edit_phone\<close> on a record
  whose one phone is 0500000000, are called with 123456789 followed by a superscript
  two (code point 0xB2); both return, and the phone list then holds that string, which
  is not a string of ten decimal digits.
\<close>

theorem phones_superscript_failure:
  "phones_decimal (Record_init (str ''Ann'')) \<and>
   add_phone (str ''123456789'' @ [0xB2]) (Record_init (str ''Ann'')) =
     (Inr (),
      \<lparr>name = str ''Ann'', phones = [Phone (str ''123456789'' @ [0xB2])], birthday = None\<rparr>) \<and>
   phones_decimal
     \<lparr>name = str ''Ann'', phones = [Phone (str ''0500000000'')], birthday = None\<rparr> \<and>
   edit_phone (str ''0500000000'') (str ''123456789'' @ [0xB2])
     \<lparr>name = str ''Ann'', phones = [Phone (str ''0500000000'')], birthday = None\<rparr> =
     (Inr (),
      \<lparr>name = str ''Ann'', phones = [Phone (str ''123456789'' @ [0xB2])], birthday = None\<rparr>) \<and>
   \<not> phones_decimal
     \<lparr>name = str ''Ann'', phones = [Phone (str ''123456789'' @ [0xB2])], birthday = None\<rparr>"
  by (simp add: add_phone_def edit_phone_def find_phone_def list_setitem_def Record_init_def
      Phone_init_def validate_phone_def isdigit_def isdigit_char_def isdecimal_ascii
      in_ranges_def other_digits_def phones_decimal_def ten_decimal_digits_def between_def str_def)

subsection \<open>Days to the next birthday\<close>

lemma days_to_birthday_None: "birthday r = None \<Longrightarrow> days_to_birthday today r = Inr None"
  by (simp add: days_to_birthday_def)

lemma feb29_replace:
  assumes "1 \<le> y" "y \<le> 9999" "\<not> is_leap y" "month d = 2" "day d = 29"
  shows "date_replace_year d y = Inl (ValueError ''day is out of range for month'')"
  using assms
  by (simp add: date_replace_year_def date_new_def MINYEAR_def MAXYEAR_def days_in_month_def
      DAYS_IN_MONTH_def)

lemma days_to_birthday_feb29:
  assumes "valid_date today" "\<not> is_leap (year today)" "birthday r = Some b"
    "month (birthday_value b) = 2" "day (birthday_value b) = 29"
  shows "days_to_birthday today r = Inl (ValueError ''day is out of range for month'')"
proof -
  from assms(1) have "1 \<le> year today" "year today \<le> 9999"
    by (simp_all add: valid_date_iff)
  from feb29_replace [OF this assms(2,4,5)] assms(3) show ?thesis
    by (simp add: days_to_birthday_def)
qed

lemma occurrence_valid:
  assumes "valid_date b" "\<not> (month b = 2 \<and> day b = 29)" "1 \<le> y" "y \<le> 9999"
  shows "date_replace_year b y = Inr (occurrence b y)" "valid_date (occurrence b y)"
proof -
  from assms(1) have b: "1 \<le> month b" "month b \<le> 12" "1 \<le> day b"
    "day b \<le> days_in_month (year b) (month b)"
    by (simp_all add: valid_date_iff)
  have "day b \<le> days_in_month y (month b)"
  proof (cases "month b = 2")
    case True
    with b(4) have "day b \<le> 29"
      by (simp add: days_in_month_def DAYS_IN_MONTH_def split: if_splits)
    with assms(2) True have "day b \<le> 28" by simp
    with True show ?thesis
      by (simp add: days_in_month_def DAYS_IN_MONTH_def)
  next
    case False
    with b(4) show ?thesis by (simp add: days_in_month_def)
  qed
  with b assms(3,4) show "date_replace_year b y = Inr (occurrence b y)"
    "valid_date (occurrence b y)"
    by (simp_all add: date_replace_year_def date_new_Inr occurrence_def valid_date_iff)
qed

lemma days_to_birthday_regular:
  assumes today: "valid_date today" and b: "valid_date b"
    and r: "birthday r = Some (Birthday b)"
    and nf: "\<not> (month b = 2 \<and> day b = 29)" and y: "year today < 9999"
  shows "days_to_birthday today r =
      Inr (Some (toordinal (next_occurrence b today) - toordinal today))"
    and "valid_date (next_occurrence b today)"
    and "\<not> date_lt (next_occurrence b today) today"
    and "0 \<le> toordinal (next_occurrence b today) - toordinal today"
proof -
  from today have ty: "1 \<le> year today" "year today \<le> 9999"
    by (simp_all add: valid_date_iff)
  from ty y have ty': "1 \<le> year today + 1" "year today + 1 \<le> 9999"
    by simp_all
  note this_year = occurrence_valid [OF b nf ty]
  note next_year = occurrence_valid [OF b nf ty']
  have repl: "date_replace_year (occurrence b (year today)) (year today + 1) =
      Inr (occurrence b (year today + 1))"
    using next_year(1) by (simp add: date_replace_year_def occurrence_def)
  show 1: "days_to_birthday today r =
      Inr (Some (toordinal (next_occurrence b today) - toordinal today))"
    using r this_year(1) repl
    by (simp add: days_to_birthday_def next_occurrence_def date_sub_days_def)
  show 2: "valid_date (next_occurrence b today)"
    using this_year(2) next_year(2) by (simp add: next_occurrence_def)
  show 3: "\<not> date_lt (next_occurrence b today) today"
    by (auto simp: next_occurrence_def date_lt_def occurrence_def)
  from toordinal_mono [OF 2 today 3]
  show "0 \<le> toordinal (next_occurrence b today) - toordinal today"
    by simp
qed

lemma upcoming_loop_raises:
  assumes "birthday r \<noteq> None" "days_to_birthday today r = Inl e"
    "\<forall>x \<in> set pre. birthday x \<noteq> None \<longrightarrow> \<not> isl (days_to_birthday today x)"
  shows "upcoming_loop today days (pre @ r # rest) acc = Inl e"
  using assms(3)
proof (induction pre arbitrary: acc)
  case Nil
  then show ?case using assms(1,2) by simp
next
  case (Cons x pre)
  then show ?case
    by (cases "days_to_birthday today x") auto
qed

lemma upcoming_loop_returns:
  assumes "\<forall>x \<in> set rs. birthday x \<noteq> None \<longrightarrow> \<not> isl (days_to_birthday today x)"
  shows "upcoming_loop today days rs acc = Inr (acc @ filter (upcoming today days) rs)"
  using assms
proof (induction rs arbitrary: acc)
  case Nil
  then show ?case by simp
next
  case (Cons x rs)
  show ?case
  proof (cases "birthday x")
    case None
    with Cons show ?thesis by (simp add: upcoming_def)
  next
    case (Some b)
    with Cons.prems obtain v where v: "days_to_birthday today x = Inr v"
      by (cases "days_to_birthday today x") auto
    show ?thesis
      using Cons Some v by (cases v) (simp_all add: upcoming_def)
  qed
qed

text \<open>
  Where the birthday is not the 29th of February (and today is before the last year of
  the calendar), \<^verbatim>\<open>days_to_birthday\<close> does return the number of days to the next
  occurrence, and the number is not negative: \<open>days_to_birthday_regular\<close>. The two
  examples of the specification:
\<close>

lemma days_to_birthday_examples:
  "days_to_birthday \<lparr>year = 2024, month = 3, day = 10\<rparr>
     \<lparr>name = str ''Ann'', phones = [],
      birthday = Some (Birthday \<lparr>year = 1990, month = 3, day = 15\<rparr>)\<rparr> = Inr (Some 5)"
  "days_to_birthday \<lparr>year = 2024, month = 3, day = 20\<rparr>
     \<lparr>name = str ''Ann'', phones = [],
      birthday = Some (Birthday \<lparr>year = 1990, month = 3, day = 15\<rparr>)\<rparr> =
   Inr (Some (date_sub_days \<lparr>year = 2025, month = 3, day = 15\<rparr>
     \<lparr>year = 2024, month = 3, day = 20\<rparr>))"
  by (simp_all add: days_to_birthday_def date_replace_year_def date_new_def MINYEAR_def
      MAXYEAR_def days_in_month_def DAYS_IN_MONTH_def is_leap_def date_lt_def date_sub_days_def
      toordinal_def days_before_year_def days_before_month_def DAYS_BEFORE_MONTH_def)

text \<open>
  C4. The claim: \<^verbatim>\<open>days_to_birthday\<close> returns none without a birthday and otherwise the
  number of days, not negative, to the next occurrence of the birthday's month and day.
  The code does not: for a birthday on the 29th of February and a today in a year that
  is not a leap year, \<^verbatim>\<open>replace(year=today.year)\<close> raises \<^verbatim>\<open>ValueError\<close> and no number
  is returned. Here the call is evaluated for the birthday 29.02.2000 on 10.03.2023.
\<close>

theorem days_to_birthday_feb29_failure:
  "days_to_birthday \<lparr>year = 2023, month = 3, day = 10\<rparr>
     \<lparr>name = str ''Ann'', phones = [],
      birthday = Some (Birthday \<lparr>year = 2000, month = 2, day = 29\<rparr>)\<rparr> =
   Inl (ValueError ''day is out of range for month'')"
  by (simp add: days_to_birthday_def date_replace_year_def date_new_def MINYEAR_def MAXYEAR_def
      days_in_month_def DAYS_IN_MONTH_def is_leap_def)

text \<open>
  C10. For a record whose birthday is the 29th of February, \<^verbatim>\<open>days_to_birthday\<close> raises
  \<^verbatim>\<open>ValueError\<close> instead of returning a number whenever today's year is not a leap
  year: the function is not total on records with a birthday.
\<close>

theorem days_to_birthday_feb29_raises:
  "valid_date today \<and> \<not> is_leap (year today) \<and> birthday r = Some b \<and>
   month (birthday_value b) = 2 \<and> day (birthday_value b) = 29 \<longrightarrow>
   days_to_birthday today r = Inl (ValueError ''day is out of range for month'')"
  using days_to_birthday_feb29 [of today r b] by blast

theorem days_to_birthday_feb29_raises_witness:
  "valid_date \<lparr>year = 2025, month = 1, day = 1\<rparr> \<and>
   valid_date \<lparr>year = 1996, month = 2, day = 29\<rparr> \<and>
   \<not> is_leap 2025 \<and>
   days_to_birthday \<lparr>year = 2025, month = 1, day = 1\<rparr>
     \<lparr>name = str ''Bob'', phones = [],
      birthday = Some (Birthday \<lparr>year = 1996, month = 2, day = 29\<rparr>)\<rparr> =
   Inl (ValueError ''day is out of range for month'')"
proof -
  have today: "valid_date \<lparr>year = 2025, month = 1, day = 1\<rparr>"
    by (simp add: valid_date_iff days_in_month_def DAYS_IN_MONTH_def)
  have born: "valid_date \<lparr>year = 1996, month = 2, day = 29\<rparr>"
    by (simp add: valid_date_iff days_in_month_def is_leap_def)
  have nonleap: "\<not> is_leap 2025"
    by (simp add: is_leap_def)
  from days_to_birthday_feb29_raises [of "\<lparr>year = 2025, month = 1, day = 1\<rparr>"
      "\<lparr>name = str ''Bob'', phones = [],
        birthday = Some (Birthday \<lparr>year = 1996, month = 2, day = 29\<rparr>)\<rparr>"
      "Birthday \<lparr>year = 1996, month = 2, day = 29\<rparr>"] today born nonleap
  show ?thesis by simp
qed

subsection \<open>Upcoming birthdays\<close>

text \<open>
  Where no record with a birthday makes \<^verbatim>\<open>days_to_birthday\<close> raise,
  \<^verbatim>\<open>get_upcoming_birthdays\<close> returns exactly the records with a birthday at most \<open>days\<close>
  days away, the bound included, in the order of the book.
\<close>

lemma get_upcoming_birthdays_returns:
  assumes "\<forall>x \<in> set (dict_values book). birthday x \<noteq> None \<longrightarrow>
    \<not> isl (days_to_birthday today x)"
  shows "get_upcoming_birthdays today days book =
    Inr (filter (upcoming today days) (dict_values book))"
  using upcoming_loop_returns [OF assms, of days "[]"] by (simp add: get_upcoming_birthdays_def)

lemma upcoming_boundary:
  assumes "birthday r \<noteq> None" "days_to_birthday today r = Inr (Some n)"
  shows "upcoming today days r \<longleftrightarrow> n \<le> days"
  using assms by (simp add: upcoming_def)

text \<open>
  C5. The claim: \<^verbatim>\<open>get_upcoming_birthdays\<close> returns exactly the records with a birthday
  whose \<^verbatim>\<open>days_to_birthday\<close> is at most \<open>days\<close>. The code does not when the book
  holds a record with a birthday on the 29th of February and today's year is not a leap
  year: \<^verbatim>\<open>days_to_birthday\<close> raises for that record and the exception ends the whole call,
  so the records that do qualify are not returned. Here Ann's birthday is 5 days away
  on 10.03.2023, Bob was born on 29.02.2000, and the call with 7 days raises.
\<close>

theorem get_upcoming_birthdays_feb29_failure:
  "days_to_birthday \<lparr>year = 2023, month = 3, day = 10\<rparr>
     \<lparr>name = str ''Ann'', phones = [],
      birthday = Some (Birthday \<lparr>year = 1990, month = 3, day = 15\<rparr>)\<rparr> = Inr (Some 5) \<and>
   get_upcoming_birthdays \<lparr>year = 2023, month = 3, day = 10\<rparr> 7
     [(str ''Ann'', \<lparr>name = str ''Ann'', phones = [],
         birthday = Some (Birthday \<lparr>year = 1990, month = 3, day = 15\<rparr>)\<rparr>),
      (str ''Bob'', \<lparr>name = str ''Bob'', phones = [],
         birthday = Some (Birthday \<lparr>year = 2000, month = 2, day = 29\<rparr>)\<rparr>)] =
   Inl (ValueError ''day is out of range for month'')"
  by (simp add: get_upcoming_birthdays_def dict_values_def days_to_birthday_def
      date_replace_year_def date_new_def MINYEAR_def MAXYEAR_def days_in_month_def
      DAYS_IN_MONTH_def is_leap_def date_lt_def date_sub_days_def toordinal_def
      days_before_year_def days_before_month_def DAYS_BEFORE_MONTH_def)

subsection \<open>The address book\<close>

lemma dict_get_setitem_same: "dict_get (dict_setitem d k v) k = Some v"
  by (induction d) auto

lemma dict_get_setitem_other: "k' \<noteq> k \<Longrightarrow> dict_get (dict_setitem d k v) k' = dict_get d k'"
  by (induction d) auto

lemma key_in_keys: "(k, v) \<in> set d \<Longrightarrow> k \<in> fst ` set d"
  by force

lemma keys_setitem:
  "map fst (dict_setitem d k v) = (if k \<in> set (map fst d) then map fst d else map fst d @ [k])"
  by (induction d) (auto dest: key_in_keys)

lemma dict_inv_setitem: "dict_inv d \<Longrightarrow> dict_inv (dict_setitem d k v)"
  by (simp add: dict_inv_def keys_setitem)

lemma filter_absent: "k \<notin> set (map fst d) \<Longrightarrow> filter (\<lambda>(k', v). k' = k) d = []"
  by (induction d) auto

lemma filter_absent_neq: "k \<notin> set (map fst d) \<Longrightarrow> filter (\<lambda>(k', v). k' \<noteq> k) d = d"
  by (induction d) auto

lemma filter_setitem:
  "dict_inv d \<Longrightarrow> filter (\<lambda>(k', v'). k' = k) (dict_setitem d k v) = [(k, v)]"
  unfolding dict_inv_def by (induction d) (auto simp: filter_absent)

lemma dict_delitem_present:
  "dict_inv d \<Longrightarrow> k \<in> set (map fst d) \<Longrightarrow>
   dict_delitem d k = Inr (filter (\<lambda>(k', v). k' \<noteq> k) d)"
  unfolding dict_inv_def
proof (induction d)
  case Nil
  then show ?case by simp
next
  case (Cons e d)
  obtain k' v' where e: "e = (k', v')" by (cases e)
  show ?case
  proof (cases "k' = k")
    case True
    with Cons.prems show ?thesis by (simp add: e filter_absent_neq)
  next
    case False
    with Cons.prems have "distinct (map fst d)" "k \<in> set (map fst d)"
      by (auto simp: e)
    from Cons.IH [OF this] False show ?thesis by (simp add: e)
  qed
qed

lemma dict_inv_filter: "dict_inv d \<Longrightarrow> dict_inv (filter P d)"
  unfolding dict_inv_def by (simp add: distinct_map_filter)

lemma delete_absent:
  "\<not> dict_contains book nm \<Longrightarrow> delete nm book = (Inl (ValueError ''Record not found.''), book)"
  by (simp add: delete_def)

lemma delete_present:
  "dict_inv book \<Longrightarrow> dict_contains book nm \<Longrightarrow>
   delete nm book = (Inr (), filter (\<lambda>(k, v). k \<noteq> nm) book)"
  by (simp add: delete_def dict_contains_def dict_delitem_present)

lemma dict_inv_delete: "dict_inv book \<Longrightarrow> dict_inv (snd (delete nm book))"
  by (cases "dict_contains book nm") (simp_all add: delete_absent delete_present dict_inv_filter)

text \<open>
  C6. \<^verbatim>\<open>add_record\<close> is last-write-wins: after it the book maps the record's name to the
  record and every other name as before. Adding two records of one name to a book leaves
  exactly one entry for the name, the second record. The empty book has each name at
  most once, and \<^verbatim>\<open>add_record\<close> and \<^verbatim>\<open>delete\<close>, the two operations that change a
  book, keep it so.
\<close>

theorem add_record_last_write_wins:
  "find (add_record r book) (name r) = Some r \<and>
   (\<forall>nm. nm \<noteq> name r \<longrightarrow> find (add_record r book) nm = find book nm) \<and>
   (dict_inv book \<and> name r1 = name r2 \<longrightarrow>
      filter (\<lambda>(k, v). k = name r2) (add_record r2 (add_record r1 book)) = [(name r2, r2)] \<and>
      find (add_record r2 (add_record r1 book)) (name r2) = Some r2) \<and>
   dict_inv ([] :: AddressBook) \<and>
   (dict_inv book \<longrightarrow> dict_inv (add_record r book) \<and> dict_inv (snd (delete nm' book)))"
  by (simp add: find_def add_record_def dict_get_setitem_same dict_get_setitem_other
      dict_inv_setitem filter_setitem dict_inv_delete)
    (simp add: dict_inv_def)

theorem add_record_last_write_wins_witness:
  "dict_inv [(str ''Bob'', \<lparr>name = str ''Bob'', phones = [], birthday = None\<rparr>)] \<and>
   filter (\<lambda>(k, v). k = str ''Ann'')
     (add_record
        \<lparr>name = str ''Ann'', phones = [Phone (str ''0502222222'')], birthday = None\<rparr>
        (add_record
           \<lparr>name = str ''Ann'', phones = [Phone (str ''0501111111'')], birthday = None\<rparr>
           [(str ''Bob'', \<lparr>name = str ''Bob'', phones = [], birthday = None\<rparr>)])) =
     [(str ''Ann'',
       \<lparr>name = str ''Ann'', phones = [Phone (str ''0502222222'')], birthday = None\<rparr>)] \<and>
   find
     (add_record
        \<lparr>name = str ''Ann'', phones = [Phone (str ''0502222222'')], birthday = None\<rparr>
        (add_record
           \<lparr>name = str ''Ann'', phones = [Phone (str ''0501111111'')], birthday = None\<rparr>
           [(str ''Bob'', \<lparr>name = str ''Bob'', phones = [], birthday = None\<rparr>)]))
     (str ''Ann'') =
     Some \<lparr>name = str ''Ann'', phones = [Phone (str ''0502222222'')], birthday = None\<rparr> \<and>
   dict_inv
     (add_record
        \<lparr>name = str ''Ann'', phones = [Phone (str ''0502222222'')], birthday = None\<rparr>
        [(str ''Bob'', \<lparr>name = str ''Bob'', phones = [], birthday = None\<rparr>)]) \<and>
   dict_inv
     (snd (delete (str ''Bob'')
        [(str ''Bob'', \<lparr>name = str ''Bob'', phones = [], birthday = None\<rparr>)]))"
proof -
  let ?book = "[(str ''Bob'', \<lparr>name = str ''Bob'', phones = [], birthday = None\<rparr>)]"
  let ?r1 = "\<lparr>name = str ''Ann'', phones = [Phone (str ''0501111111'')], birthday = None\<rparr>"
  let ?r2 = "\<lparr>name = str ''Ann'', phones = [Phone (str ''0502222222'')], birthday = None\<rparr>"
  have inv: "dict_inv ?book"
    by (simp add: dict_inv_def)
  have names: "name ?r1 = name ?r2" "name ?r2 = str ''Ann''"
    by simp_all
  from add_record_last_write_wins [of ?r2 ?book ?r1 ?r2 "str ''Bob''"] inv names
  show ?thesis by simp
qed

text \<open>
  C7. \<^verbatim>\<open>delete\<close>: for a name the book has no record of, the call raises the
  \<^verbatim>\<open>ValueError\<close> "Record not found." and the book is as before; for a name it has, the
  entry of that name is gone and every other entry is as before, in the same order. The
  book is a dict, so it has each name at most once (\<^const>\<open>dict_inv\<close>).
\<close>

theorem delete_spec:
  "(\<not> dict_contains book nm \<longrightarrow>
      delete nm book = (Inl (ValueError ''Record not found.''), book)) \<and>
   (dict_inv book \<and> dict_contains book nm \<longrightarrow>
      delete nm book = (Inr (), filter (\<lambda>(k, v). k \<noteq> nm) book))"
  by (simp add: delete_absent delete_present)

theorem delete_spec_witness:
  "delete (str ''Alice'')
     [(str ''Bob'', \<lparr>name = str ''Bob'', phones = [], birthday = None\<rparr>)] =
     (Inl (ValueError ''Record not found.''),
      [(str ''Bob'', \<lparr>name = str ''Bob'', phones = [], birthday = None\<rparr>)]) \<and>
   delete (str ''Alice'')
     [(str ''Alice'',
       \<lparr>name = str ''Alice'', phones = [Phone (str ''0501111111'')], birthday = None\<rparr>),
      (str ''Bob'', \<lparr>name = str ''Bob'', phones = [], birthday = None\<rparr>)] =
     (Inr (), [(str ''Bob'', \<lparr>name = str ''Bob'', phones = [], birthday = None\<rparr>)])"
proof -
  let ?bob = "(str ''Bob'', \<lparr>name = str ''Bob'', phones = [], birthday = None\<rparr>)"
  let ?alice = "(str ''Alice'',
    \<lparr>name = str ''Alice'', phones = [Phone (str ''0501111111'')], birthday = None\<rparr>)"
  have differ: "str ''Alice'' \<noteq> str ''Bob''"
    by (simp add: str_def)
  from delete_spec [of "[?bob]" "str ''Alice''"] differ
  have 1: "delete (str ''Alice'') [?bob] = (Inl (ValueError ''Record not found.''), [?bob])"
    by (simp add: dict_contains_def)
  from delete_spec [of "[?alice, ?bob]" "str ''Alice''"] differ
  have 2: "delete (str ''Alice'') [?alice, ?bob] = (Inr (), [?bob])"
    by (simp add: dict_contains_def dict_inv_def)
  from 1 2 show ?thesis by simp
qed

end
